theory Spec2Isabelle
  imports Main "HOL-Library.Word"
begin

unbundle bit_operations_syntax

section \<open>Data model of the neo2-llkh keyboard remapper (main.cpp)\<close>

text \<open>
  Machine types of the source: \<open>TCHAR\<close> is a 16-bit UTF-16 code unit, \<open>CHAR\<close> (here \<open>CHAR_T\<close>) and
  \<open>BYTE\<close> are 8 bits, \<open>SHORT\<close> is 16 bits, \<open>DWORD\<close> is 32 bits and \<open>ULONG_PTR\<close>,
  \<open>WPARAM\<close> are 64 bits.  Wide-character literals are written as the list of their
  code units, in the order of the source literal.
\<close>

type_synonym TCHAR = "16 word"
type_synonym CHAR_T = "8 word"
type_synonym BYTE = "8 word"
type_synonym SHORT = "16 word"
type_synonym DWORD = "32 word"
type_synonym ULONG_PTR = "64 word"
type_synonym WPARAM = "64 word"

text \<open>The anonymous enum of main.cpp, lines 20-30.\<close>

definition MAPPING_LEN :: nat where "MAPPING_LEN = 103"
definition SCANCODE_TAB_KEY :: DWORD where "SCANCODE_TAB_KEY = 15"
definition SCANCODE_CAPSLOCK_KEY :: DWORD where "SCANCODE_CAPSLOCK_KEY = 58"
definition SCANCODE_LOWER_THAN_KEY :: DWORD where "SCANCODE_LOWER_THAN_KEY = 86"
definition SCANCODE_QUOTE_KEY :: DWORD where "SCANCODE_QUOTE_KEY = 40"
definition SCANCODE_HASH_KEY :: DWORD where "SCANCODE_HASH_KEY = 43"
definition SCANCODE_RETURN_KEY :: DWORD where "SCANCODE_RETURN_KEY = 28"

text \<open>
  Constants of the Windows headers (WinUser.h) that main.cpp uses by name.  The headers
  are not part of the repository; the values are the documented ones.
\<close>

definition HC_ACTION :: int where "HC_ACTION = 0"
definition WM_KEYDOWN :: WPARAM where "WM_KEYDOWN = 0x0100"
definition WM_KEYUP :: WPARAM where "WM_KEYUP = 0x0101"
definition WM_SYSKEYDOWN :: WPARAM where "WM_SYSKEYDOWN = 0x0104"
definition WM_SYSKEYUP :: WPARAM where "WM_SYSKEYUP = 0x0105"
definition LLKHF_INJECTED :: DWORD where "LLKHF_INJECTED = 0x10"
definition KEYEVENTF_KEYUP :: DWORD where "KEYEVENTF_KEYUP = 0x2"

definition VK_BACK :: DWORD where "VK_BACK = 0x08"
definition VK_TAB :: DWORD where "VK_TAB = 0x09"
definition VK_RETURN :: DWORD where "VK_RETURN = 0x0D"
definition VK_SHIFT :: DWORD where "VK_SHIFT = 0x10"
definition VK_CONTROL :: DWORD where "VK_CONTROL = 0x11"
definition VK_MENU :: DWORD where "VK_MENU = 0x12"
definition VK_CAPITAL :: DWORD where "VK_CAPITAL = 0x14"
definition VK_ESCAPE :: DWORD where "VK_ESCAPE = 0x1B"
definition VK_SPACE :: DWORD where "VK_SPACE = 0x20"
definition VK_PRIOR :: DWORD where "VK_PRIOR = 0x21"
definition VK_NEXT :: DWORD where "VK_NEXT = 0x22"
definition VK_END :: DWORD where "VK_END = 0x23"
definition VK_HOME :: DWORD where "VK_HOME = 0x24"
definition VK_LEFT :: DWORD where "VK_LEFT = 0x25"
definition VK_UP :: DWORD where "VK_UP = 0x26"
definition VK_RIGHT :: DWORD where "VK_RIGHT = 0x27"
definition VK_DOWN :: DWORD where "VK_DOWN = 0x28"
definition VK_INSERT :: DWORD where "VK_INSERT = 0x2D"
definition VK_DELETE :: DWORD where "VK_DELETE = 0x2E"
definition VK_LWIN :: DWORD where "VK_LWIN = 0x5B"
definition VK_RWIN :: DWORD where "VK_RWIN = 0x5C"
definition VK_LSHIFT :: DWORD where "VK_LSHIFT = 0xA0"
definition VK_RSHIFT :: DWORD where "VK_RSHIFT = 0xA1"
definition VK_LCONTROL :: DWORD where "VK_LCONTROL = 0xA2"
definition VK_RCONTROL :: DWORD where "VK_RCONTROL = 0xA3"
definition VK_LMENU :: DWORD where "VK_LMENU = 0xA4"
definition VK_RMENU :: DWORD where "VK_RMENU = 0xA5"
definition VK_OEM_102 :: DWORD where "VK_OEM_102 = 0xE2"

subsection \<open>Layout tables\<close>

text \<open>
  \<open>KeyMapping\<close> and \<open>CharMapping\<close> are arrays of \<open>MAPPING_LEN\<close> entries, zero
  initialised; \<open>Layout\<close> holds one \<open>KeyMapping\<close> per \<open>Level\<close> (an array indexed by the
  enum, here a function of the enum), the variant flag and the level-4 table of
  virtual keys.
\<close>

type_synonym KeyMapping = "TCHAR list"
type_synonym CharMapping = "CHAR_T list"

datatype Level = LEVEL_1 | LEVEL_2 | LEVEL_3 | LEVEL_4 | LEVEL_5 | LEVEL_6

record Layout =
  levels :: "Level \<Rightarrow> KeyMapping"
  is_kou_or_vue :: bool
  level4_specials :: CharMapping

record Settings =
  layout :: string
  debugWindow :: bool
  quoteAsMod3R :: bool
  returnAsMod3R :: bool
  tabAsMod4L :: bool
  capsLockEnabled :: bool
  shiftLockEnabled :: bool
  level4LockEnabled :: bool
  qwertzForShortcuts :: bool
  swapLeftCtrlAndLeftAlt :: bool
  swapLeftCtrlLeftAltAndLeftWin :: bool
  supportLevels5and6 :: bool
  capsLockAsEscape :: bool
  mod3RAsReturn :: bool
  mod4LAsTab :: bool
  scanCodeMod3L :: DWORD
  scanCodeMod3R :: DWORD
  scanCodeMod4L :: DWORD

record State =
  bypassMode :: bool
  shiftPressed :: bool
  mod3Pressed :: bool
  mod4Pressed :: bool
  shiftLeftPressed :: bool
  shiftRightPressed :: bool
  shiftLockActive :: bool
  capsLockActive :: bool
  level3modLeftPressed :: bool
  level3modRightPressed :: bool
  level3modLeftAndNoOtherKeyPressed :: bool
  level3modRightAndNoOtherKeyPressed :: bool
  level4modLeftAndNoOtherKeyPressed :: bool
  level4modLeftPressed :: bool
  level4modRightPressed :: bool
  level4LockActive :: bool
  ctrlLeftPressed :: bool
  ctrlRightPressed :: bool
  altLeftPressed :: bool
  winLeftPressed :: bool
  winRightPressed :: bool

text \<open>
  The member initialisers of \<open>Settings\<close> (lines 65-85); the layout name of the global
  \<open>g_settings\<close> is the empty string until the configuration is read.
\<close>

definition defaultSettings :: Settings where
  "defaultSettings =
     \<lparr>layout = [], debugWindow = False, quoteAsMod3R = False, returnAsMod3R = False,
      tabAsMod4L = False, capsLockEnabled = False, shiftLockEnabled = False,
      level4LockEnabled = False, qwertzForShortcuts = False,
      swapLeftCtrlAndLeftAlt = False, swapLeftCtrlLeftAltAndLeftWin = False,
      supportLevels5and6 = False, capsLockAsEscape = False, mod3RAsReturn = False,
      mod4LAsTab = False, scanCodeMod3L = SCANCODE_CAPSLOCK_KEY,
      scanCodeMod3R = SCANCODE_HASH_KEY, scanCodeMod4L = SCANCODE_LOWER_THAN_KEY\<rparr>"

text \<open>\<open>Settings::sanitize\<close>, lines 87-103.\<close>

definition sanitize :: "Settings \<Rightarrow> Settings" where
  "sanitize s =
     (let s = (if capsLockEnabled s then s\<lparr>shiftLockEnabled := False\<rparr> else s);
          s = (if swapLeftCtrlLeftAltAndLeftWin s then s\<lparr>swapLeftCtrlAndLeftAlt := False\<rparr> else s);
          s = (if quoteAsMod3R s then s\<lparr>scanCodeMod3R := SCANCODE_QUOTE_KEY\<rparr>
               else if returnAsMod3R s then s\<lparr>scanCodeMod3R := SCANCODE_RETURN_KEY\<rparr>
               else s)
      in if tabAsMod4L s then s\<lparr>scanCodeMod4L := SCANCODE_TAB_KEY\<rparr> else s)"

text \<open>The member initialisers of \<open>State\<close> (lines 106-134): every flag is false.\<close>

definition initialState :: State where
  "initialState =
     \<lparr>bypassMode = False, shiftPressed = False, mod3Pressed = False, mod4Pressed = False,
      shiftLeftPressed = False, shiftRightPressed = False, shiftLockActive = False,
      capsLockActive = False, level3modLeftPressed = False, level3modRightPressed = False,
      level3modLeftAndNoOtherKeyPressed = False, level3modRightAndNoOtherKeyPressed = False,
      level4modLeftAndNoOtherKeyPressed = False, level4modLeftPressed = False,
      level4modRightPressed = False, level4LockActive = False, ctrlLeftPressed = False,
      ctrlRightPressed = False, altLeftPressed = False, winLeftPressed = False,
      winRightPressed = False\<rparr>"

subsection \<open>Building the layout (lines 180-343)\<close>

text \<open>
  A sequence of statements that each update the local \<open>layout\<close> is the left-to-right
  composition of the updates.
\<close>

definition seq :: "('a \<Rightarrow> 'a) list \<Rightarrow> 'a \<Rightarrow> 'a" where
  "seq stmts x = fold (\<lambda>stmt y. stmt y) stmts x"

text \<open>
  \<open>KeyMapping::fillAtLiteral<O>(p)\<close>: the loop \<open>mapping[O + i] = p[i]\<close> (the
  offset \<open>O\<close> is \<open>off\<close> here) over the
  characters of the literal (without its terminating zero).
\<close>

definition fillAtLiteral :: "nat \<Rightarrow> TCHAR list \<Rightarrow> KeyMapping \<Rightarrow> KeyMapping" where
  "fillAtLiteral off p m = fold (\<lambda>i m. m[off + i := p ! i]) [0..<length p] m"

text \<open>\<open>ArrayView::findIndex\<close>: the first index holding \<open>f\<close>, or -1.\<close>

fun findIndexFrom :: "nat \<Rightarrow> 'a list \<Rightarrow> 'a \<Rightarrow> int" where
  "findIndexFrom i [] f = - 1"
| "findIndexFrom i (x # xs) f = (if x = f then int i else findIndexFrom (Suc i) xs f)"

definition findIndex :: "'a list \<Rightarrow> 'a \<Rightarrow> int" where
  "findIndex m f = findIndexFrom 0 m f"

definition lowerLetters :: "TCHAR list" where
  "lowerLetters =
     [0x0061, 0x0062, 0x0063, 0x0064, 0x0065, 0x0066, 0x0067, 0x0068,
      0x0069, 0x006A, 0x006B, 0x006C, 0x006D, 0x006E, 0x006F, 0x0070,
      0x0071, 0x0072, 0x0073, 0x0074, 0x0075, 0x0076, 0x0077, 0x0078,
      0x0079, 0x007A, 0x00E4, 0x00F6, 0x00FC, 0x00DF, 0x002E, 0x002C]"

definition mapLevelsLetters :: "KeyMapping \<Rightarrow> KeyMapping \<Rightarrow> TCHAR list \<Rightarrow> KeyMapping" where
  "mapLevelsLetters base mappingTableOutput newChars =
     fold (\<lambda>i out.
             let c = findIndex lowerLetters (base ! i)
             in if c \<noteq> - 1 then out[i := newChars ! nat c] else out)
          [0..<MAPPING_LEN] mappingTableOutput"

text \<open>
  The statements \<open>buildLayout\<close> is made of, each as an update of the local
  \<open>layout\<close>: \<open>layout[lv].fillAtLiteral<off>(p)\<close>, \<open>mapLevelsLetters(layout[base],
  layout[out], newChars)\<close>, \<open>layout[lv].mapping[i] = c\<close>,
  \<open>layout[lv].mapping[dst] = layout[lv].mapping[src]\<close> and
  \<open>layout.level4_specials.mapping[i] = vk\<close>.
\<close>

definition fillLevel :: "Level \<Rightarrow> nat \<Rightarrow> TCHAR list \<Rightarrow> Layout \<Rightarrow> Layout" where
  "fillLevel lv off p l = l\<lparr>levels := (levels l)(lv := fillAtLiteral off p (levels l lv))\<rparr>"

definition mapLetters :: "Level \<Rightarrow> Level \<Rightarrow> TCHAR list \<Rightarrow> Layout \<Rightarrow> Layout" where
  "mapLetters base out newChars l =
     l\<lparr>levels := (levels l)(out := mapLevelsLetters (levels l base) (levels l out) newChars)\<rparr>"

definition setMapping :: "Level \<Rightarrow> nat \<Rightarrow> TCHAR \<Rightarrow> Layout \<Rightarrow> Layout" where
  "setMapping lv i c l = l\<lparr>levels := (levels l)(lv := (levels l lv)[i := c])\<rparr>"

definition copyMapping :: "Level \<Rightarrow> nat \<Rightarrow> nat \<Rightarrow> Layout \<Rightarrow> Layout" where
  "copyMapping lv dst src l = setMapping lv dst (levels l lv ! src) l"

definition setSpecial :: "nat \<Rightarrow> DWORD \<Rightarrow> Layout \<Rightarrow> Layout" where
  "setSpecial i vk l = l\<lparr>level4_specials := (level4_specials l)[i := ucast vk]\<rparr>"

definition emptyLayout :: Layout where
  "emptyLayout =
     \<lparr>levels = (\<lambda>lv. replicate MAPPING_LEN 0), is_kou_or_vue = False,
      level4_specials = replicate MAPPING_LEN 0\<rparr>"

text \<open>
  \<open>buildLayout\<close> is given block by block, in the order and under the comments of the
  source: lines 213-231, 233-280, 282-287, 289-298, 300-308 and 312-340.
\<close>

definition sameForAllLayouts :: "Layout \<Rightarrow> Layout" where
  "sameForAllLayouts = seq
    [fillLevel LEVEL_1 2 [0x0031, 0x0032, 0x0033, 0x0034, 0x0035, 0x0036, 0x0037, 0x0038,
                          0x0039, 0x0030, 0x002D, 0x0060],
     fillLevel LEVEL_1 27 [0x00B4],

     fillLevel LEVEL_2 41 [0x030C],
     fillLevel LEVEL_2 2 [0x00B0, 0x00A7, 0x2113, 0x00BB, 0x00AB, 0x0024, 0x20AC, 0x201E,
                          0x201C, 0x201D, 0x2014, 0x0327],
     fillLevel LEVEL_2 27 [0x007E],

     fillLevel LEVEL_3 41 [0x005E],
     fillLevel LEVEL_3 2 [0x00B9, 0x00B2, 0x00B3, 0x203A, 0x2039, 0x00A2, 0x00A5, 0x201A,
                          0x2018, 0x2019, 0x2014, 0x030A],
     fillLevel LEVEL_3 16 [0x2026, 0x005F, 0x005B, 0x005D, 0x005E, 0x0021, 0x003C, 0x003E,
                           0x003D, 0x0026, 0x017F, 0x0337],
     fillLevel LEVEL_3 30 [0x005C, 0x002F, 0x007B, 0x007D, 0x002A, 0x003F, 0x0028, 0x0029,
                           0x002D, 0x003A, 0x0040],
     fillLevel LEVEL_3 44 [0x0023, 0x0024, 0x007C, 0x007E, 0x0060, 0x002B, 0x0025, 0x0022,
                           0x0027, 0x003B],

     fillLevel LEVEL_4 41 [0x0307],
     fillLevel LEVEL_4 2 [0x00AA, 0x00BA, 0x2116, 0x22EE, 0x00B7, 0x00A3, 0x00A4, 0x0030,
                          0x002F, 0x002A, 0x002D, 0x00A8],
     fillLevel LEVEL_4 21 [0x00A1, 0x0037, 0x0038, 0x0039, 0x002B, 0x2212, 0x02DD],
     fillLevel LEVEL_4 35 [0x00BF, 0x0034, 0x0035, 0x0036, 0x002C, 0x002E],
     fillLevel LEVEL_4 49 [0x003A, 0x0031, 0x0032, 0x0033, 0x003B]]"

definition layoutDependent :: "Settings \<Rightarrow> Layout \<Rightarrow> Layout" where
  "layoutDependent settings =
     (if layout settings = ''adnw'' then seq
        [fillLevel LEVEL_1 16 [0x006B, 0x0075, 0x00FC, 0x002E, 0x00E4, 0x0076, 0x0067, 0x0063,
                               0x006C, 0x006A, 0x0066, 0x00B4],
         fillLevel LEVEL_1 30 [0x0068, 0x0069, 0x0065, 0x0061, 0x006F, 0x0064, 0x0074, 0x0072,
                               0x006E, 0x0073, 0x00DF],
         fillLevel LEVEL_1 44 [0x0078, 0x0079, 0x00F6, 0x002C, 0x0071, 0x0062, 0x0070, 0x0077,
                               0x006D, 0x007A]]
      else if layout settings = ''adnwzjf'' then seq
        [fillLevel LEVEL_1 16 [0x006B, 0x0075, 0x00FC, 0x002E, 0x00E4, 0x0076, 0x0067, 0x0063,
                               0x006C, 0x00DF, 0x007A, 0x00B4],
         fillLevel LEVEL_1 30 [0x0068, 0x0069, 0x0065, 0x0061, 0x006F, 0x0064, 0x0074, 0x0072,
                               0x006E, 0x0073, 0x0066],
         fillLevel LEVEL_1 44 [0x0078, 0x0079, 0x00F6, 0x002C, 0x0071, 0x0062, 0x0070, 0x0077,
                               0x006D, 0x006A]]
      else if layout settings = ''bone'' then seq
        [fillLevel LEVEL_1 16 [0x006A, 0x0064, 0x0075, 0x0061, 0x0078, 0x0070, 0x0068, 0x006C,
                               0x006D, 0x0077, 0x00DF, 0x00B4],
         fillLevel LEVEL_1 30 [0x0063, 0x0074, 0x0069, 0x0065, 0x006F, 0x0062, 0x006E, 0x0072,
                               0x0073, 0x0067, 0x0071],
         fillLevel LEVEL_1 44 [0x0066, 0x0076, 0x00FC, 0x00E4, 0x00F6, 0x0079, 0x007A, 0x002C,
                               0x002E, 0x006B]]
      else if layout settings = ''koy'' then seq
        [fillLevel LEVEL_1 16 [0x006B, 0x002E, 0x006F, 0x002C, 0x0079, 0x0076, 0x0067, 0x0063,
                               0x006C, 0x00DF, 0x007A, 0x00B4],
         fillLevel LEVEL_1 30 [0x0068, 0x0061, 0x0065, 0x0069, 0x0075, 0x0064, 0x0074, 0x0072,
                               0x006E, 0x0073, 0x0066],
         fillLevel LEVEL_1 44 [0x0078, 0x0071, 0x00E4, 0x00FC, 0x00F6, 0x0062, 0x0070, 0x0077,
                               0x006D, 0x006A]]
      else if layout settings = ''kou'' \<or> layout settings = ''vou'' then seq
        [(\<lambda>l. l\<lparr>is_kou_or_vue := True\<rparr>),
         (if layout settings = ''kou'' then seq
            [fillLevel LEVEL_1 16 [0x006B, 0x002E, 0x006F, 0x0075, 0x00E4, 0x0071, 0x0067, 0x0063,
                                   0x006C, 0x0066, 0x006A, 0x00B4],
             fillLevel LEVEL_1 30 [0x0068, 0x0061, 0x0065, 0x0069, 0x0079, 0x0062, 0x0074, 0x0072,
                                   0x006E, 0x0073, 0x00DF],
             fillLevel LEVEL_1 44 [0x007A, 0x0078, 0x002C, 0x00FC, 0x00F6, 0x0070, 0x0064, 0x0077,
                                   0x006D, 0x0076]]
          else seq
            [fillLevel LEVEL_1 16 [0x0076, 0x002E, 0x006F, 0x0075, 0x00E4, 0x0071, 0x0067, 0x006C,
                                   0x0068, 0x0066, 0x006A, 0x00B4],
             fillLevel LEVEL_1 30 [0x0063, 0x0061, 0x0065, 0x0069, 0x0079, 0x0062, 0x0074, 0x0072,
                                   0x006E, 0x0073, 0x00DF],
             fillLevel LEVEL_1 44 [0x007A, 0x0078, 0x002C, 0x00FC, 0x00F6, 0x0070, 0x0064, 0x0077,
                                   0x006D, 0x006B]]),

         fillLevel LEVEL_3 16 [0x0040, 0x0025, 0x007B, 0x007D, 0x005E, 0x0021, 0x003C, 0x003E,
                               0x003D, 0x0026, 0x20AC, 0x0337],
         fillLevel LEVEL_3 30 [0x007C, 0x0060, 0x0028, 0x0029, 0x002A, 0x003F, 0x002F, 0x003A,
                               0x002D, 0x005F, 0x2192],
         fillLevel LEVEL_3 44 [0x0023, 0x005B, 0x005D, 0x007E, 0x0024, 0x002B, 0x0022, 0x0027,
                               0x005C, 0x003B],

         fillLevel LEVEL_4 4 [0x2714, 0x2718, 0x00B7, 0x00A3, 0x00A4, 0x0030, 0x002F, 0x002A,
                              0x002D, 0x00A8],
         fillLevel LEVEL_4 21 [0x003A, 0x0037, 0x0038, 0x0039, 0x002B, 0x2212, 0x02DD],
         fillLevel LEVEL_4 35 [0x002D, 0x0034, 0x0035, 0x0036, 0x002C, 0x003B],
         fillLevel LEVEL_4 49 [0x005F, 0x0031, 0x0032, 0x0033, 0x002E]]
      else seq
        [fillLevel LEVEL_1 16 [0x0078, 0x0076, 0x006C, 0x0063, 0x0077, 0x006B, 0x0068, 0x0067,
                               0x0066, 0x0071, 0x00DF, 0x00B4],
         fillLevel LEVEL_1 30 [0x0075, 0x0069, 0x0061, 0x0065, 0x006F, 0x0073, 0x006E, 0x0072,
                               0x0074, 0x0064, 0x0079],
         fillLevel LEVEL_1 44 [0x00FC, 0x00F6, 0x00E4, 0x0070, 0x007A, 0x0062, 0x006D, 0x002C,
                               0x002E, 0x006A]])"

definition mapLetterLevels :: "Layout \<Rightarrow> Layout" where
  "mapLetterLevels = seq
    [mapLetters LEVEL_1 LEVEL_2
       [0x0041, 0x0042, 0x0043, 0x0044, 0x0045, 0x0046, 0x0047, 0x0048,
        0x0049, 0x004A, 0x004B, 0x004C, 0x004D, 0x004E, 0x004F, 0x0050,
        0x0051, 0x0052, 0x0053, 0x0054, 0x0055, 0x0056, 0x0057, 0x0058,
        0x0059, 0x005A, 0x00C4, 0x00D6, 0x00DC, 0x1E9E, 0x2022, 0x2013],
     mapLetters LEVEL_1 LEVEL_5
       [0x03B1, 0x03B2, 0x03C7, 0x03B4, 0x03B5, 0x03C6, 0x03B3, 0x03C8,
        0x03B9, 0x03B8, 0x03BA, 0x03BB, 0x03BC, 0x03BD, 0x03BF, 0x03C0,
        0x03D5, 0x03C1, 0x03C3, 0x03C4, 0x0075, 0x0076, 0x03C9, 0x03BE,
        0x03C5, 0x03B6, 0x03B7, 0x03F5, 0x00FC, 0x03C2, 0x03D1, 0x03F1],
     mapLetters LEVEL_1 LEVEL_6
       [0x2200, 0x21D0, 0x2102, 0x0394, 0x2203, 0x03A6, 0x0393, 0x03A8,
        0x222B, 0x0398, 0x2A2F, 0x039B, 0x21D4, 0x2115, 0x2208, 0x03A0,
        0x211A, 0x211D, 0x03A3, 0x2202, 0x2282, 0x221A, 0x03A9, 0x039E,
        0x2207, 0x2124, 0x2135, 0x2229, 0x222A, 0x2218, 0x21A6, 0x21D2]]"

definition numberRowLevels5and6 :: "Layout \<Rightarrow> Layout" where
  "numberRowLevels5and6 = seq
    [fillLevel LEVEL_5 41 [0x0309],
     fillLevel LEVEL_5 2 [0x2081, 0x2082, 0x2083, 0x2642, 0x2640, 0x26A5, 0x03F0, 0x27E8,
                          0x27E9, 0x2080, 0x003F, 0x1FFE],
     fillLevel LEVEL_5 27 [0x1FBF],
     setMapping LEVEL_5 57 0x00a0,

     fillLevel LEVEL_6 41 [0x0323],
     fillLevel LEVEL_6 2 [0x00AC, 0x2228, 0x2227, 0x22A5, 0x2221, 0x2225, 0x2192, 0x221E,
                          0x221D, 0x2300, 0x003F, 0x0304],
     fillLevel LEVEL_6 27 [0x02D8],
     setMapping LEVEL_6 57 0x202f]"

definition copyQuoteToHash :: "Settings \<Rightarrow> Layout \<Rightarrow> Layout" where
  "copyQuoteToHash settings =
     (if quoteAsMod3R settings then seq
        [copyMapping LEVEL_1 43 40,
         copyMapping LEVEL_2 43 40,
         copyMapping LEVEL_3 43 40,
         copyMapping LEVEL_4 43 40,
         copyMapping LEVEL_5 43 40,
         copyMapping LEVEL_6 43 40]
      else seq [])"

definition fillLevel4Specials :: "Layout \<Rightarrow> Layout" where
  "fillLevel4Specials = seq
    [setSpecial 16 VK_PRIOR,
     (\<lambda>l. (if is_kou_or_vue l then seq
        [setSpecial 17 VK_NEXT,
         setSpecial 18 VK_UP,
         setSpecial 19 VK_BACK,
         setSpecial 20 VK_DELETE]
      else seq
        [setSpecial 17 VK_BACK,
         setSpecial 18 VK_UP,
         setSpecial 19 VK_DELETE,
         setSpecial 20 VK_NEXT]) l),
     setSpecial 30 VK_HOME,
     setSpecial 31 VK_LEFT,
     setSpecial 32 VK_DOWN,
     setSpecial 33 VK_RIGHT,
     setSpecial 34 VK_END,
     (\<lambda>l. (if is_kou_or_vue l then seq
        [setSpecial 44 VK_INSERT,
         setSpecial 45 VK_TAB,
         setSpecial 46 VK_RETURN,
         setSpecial 47 VK_ESCAPE]
      else seq
        [setSpecial 44 VK_ESCAPE,
         setSpecial 45 VK_TAB,
         setSpecial 46 VK_INSERT,
         setSpecial 47 VK_RETURN]) l),
     setSpecial 57 0x30]"

definition buildLayout :: "Settings \<Rightarrow> Layout" where
  "buildLayout settings = seq
    [sameForAllLayouts,
     layoutDependent settings,
     mapLetterLevels,
     numberRowLevels5and6,
     copyQuoteToHash settings,
     setMapping LEVEL_2 8 0x20AC,
     fillLevel4Specials]
    emptyLayout"

subsection \<open>Hook events, emitted effects and results\<close>

text \<open>
  \<open>KBDLLHOOKSTRUCT\<close> is the record the hook receives through \<open>lparam\<close>; a call of the
  hook procedure carries \<open>code\<close>, \<open>wparam\<close> and that record.
\<close>

record KBDLLHOOKSTRUCT =
  vkCode :: DWORD
  scanCode :: DWORD
  flags :: DWORD
  time :: DWORD
  dwExtraInfo :: ULONG_PTR

record HookCall =
  nCode :: int
  wParam :: WPARAM
  lParam :: KBDLLHOOKSTRUCT

text \<open>
  What the code does to the outside world, in the order it does it:
  \<open>keybd_event(bVk, bScan, dwFlags, dwExtraInfo)\<close>, the \<open>SendInput\<close> of
  \<open>sendUnicodeChar\<close> (one keyboard input with \<open>wScan = key\<close> and \<open>KEYEVENTF_UNICODE\<close>),
  the lines written to the console, and the change of the tray icon.
\<close>

datatype effect =
    keybd_event BYTE BYTE DWORD ULONG_PTR
  | SendInputUnicode TCHAR
  | LogKeyEvent string KBDLLHOOKSTRUCT string string string
  | LogActivation string bool
  | LogMapped DWORD DWORD TCHAR Level
  | LogBypassMode bool
  | trayicon_change_icon bool

text \<open>
  The hook procedure either passes the event on (\<open>return CallNextHookEx(...)\<close>) or
  swallows it (\<open>return -1\<close>).
\<close>

datatype verdict = CallNextHookEx | Swallow

text \<open>
  Reading \<open>mapping[i]\<close> with \<open>i\<close> outside the \<open>MAPPING_LEN\<close> entries of the array is
  undefined behaviour in C++; the model returns it as an error.
\<close>

datatype error = OutOfBounds

text \<open>
  The two functions of the host system that the code calls for a result:
  \<open>VkKeyScanEx(key, GetKeyboardLayout(0))\<close> and
  \<open>MapVirtualKeyA(vkCode, MAPVK_VK_TO_CHAR)\<close>.
\<close>

record Host =
  VkKeyScanEx :: "TCHAR \<Rightarrow> SHORT"
  MapVirtualKeyA :: "DWORD \<Rightarrow> DWORD"

subsection \<open>Lookup and emission (lines 345-407)\<close>

definition mapScanCodeToChar :: "Layout \<Rightarrow> Level \<Rightarrow> nat \<Rightarrow> error + TCHAR" where
  "mapScanCodeToChar g_layout lv i =
     (if i < MAPPING_LEN then Inr (levels g_layout lv ! i) else Inl OutOfBounds)"

definition sendUnicodeChar :: "TCHAR \<Rightarrow> effect list" where
  "sendUnicodeChar key = [SendInputUnicode key]"

text \<open>
  \<open>sendChar\<close>.  \<open>keyScanResult\<close> is a \<open>SHORT\<close>; \<open>modifiers\<close> is the \<open>char\<close> holding its
  high byte; \<open>keybd_event\<close> takes the virtual key and the scan code as \<open>BYTE\<close>s.
\<close>

definition sendChar :: "Host \<Rightarrow> State \<Rightarrow> TCHAR \<Rightarrow> KBDLLHOOKSTRUCT \<Rightarrow> effect list" where
  "sendChar host g_state key keyInfo =
     (let keyScanResult = VkKeyScanEx host key
      in if keyScanResult = - 1 \<or> shiftLockActive g_state \<or> capsLockActive g_state
            \<or> level4LockActive g_state
            \<or> (0x30 \<le> vkCode keyInfo \<and> vkCode keyInfo \<le> 0x39)
         then sendUnicodeChar key
         else
           let keyInfo = keyInfo\<lparr>vkCode := scast keyScanResult\<rparr>;
               modifiers = (ucast (drop_bit 8 keyScanResult) :: CHAR_T);
               shift = (modifiers AND 1 \<noteq> 0);
               alt = (modifiers AND 2 \<noteq> 0);
               ctrl = (modifiers AND 4 \<noteq> 0);
               altgr = (alt \<and> ctrl);
               ctrl = (if altgr then False else ctrl);
               alt = (if altgr then False else alt)
           in (if altgr then [keybd_event (ucast VK_RMENU) 0 0 0] else [])
            @ (if ctrl then [keybd_event (ucast VK_CONTROL) 0 0 0] else [])
            @ (if alt then [keybd_event (ucast VK_MENU) 0 0 0] else [])
            @ (if shift then [keybd_event (ucast VK_SHIFT) 0 0 0] else [])
            @ [keybd_event (ucast (vkCode keyInfo)) (ucast (scanCode keyInfo))
                 (flags keyInfo) (dwExtraInfo keyInfo)]
            @ (if altgr then [keybd_event (ucast VK_RMENU) 0 KEYEVENTF_KEYUP 0] else [])
            @ (if ctrl then [keybd_event (ucast VK_CONTROL) 0 KEYEVENTF_KEYUP 0] else [])
            @ (if alt then [keybd_event (ucast VK_MENU) 0 KEYEVENTF_KEYUP 0] else [])
            @ (if shift then [keybd_event (ucast VK_SHIFT) 0 KEYEVENTF_KEYUP 0] else []))"

subsection \<open>Special cases of levels 2 to 4 (lines 409-499)\<close>

text \<open>
  Each handler returns \<open>Some\<close> of what it sent when the source returns \<open>true\<close>, and
  \<open>None\<close> when the source returns \<open>false\<close> (it has sent nothing then).
\<close>

definition handleLayer2SpecialCases ::
  "Host \<Rightarrow> State \<Rightarrow> KBDLLHOOKSTRUCT \<Rightarrow> effect list option" where
  "handleLayer2SpecialCases host g_state keyInfo =
     (if scanCode keyInfo = 27 then Some (sendChar host g_state 0x0303 keyInfo)
      else if scanCode keyInfo = 41 then Some (sendChar host g_state 0x030C keyInfo)
      else None)"

definition handleLayer3SpecialCases ::
  "Layout \<Rightarrow> Host \<Rightarrow> State \<Rightarrow> KBDLLHOOKSTRUCT \<Rightarrow> effect list option" where
  "handleLayer3SpecialCases g_layout host g_state keyInfo =
     (if scanCode keyInfo = 13 then Some (sendChar host g_state 0x030A keyInfo)
      else if scanCode keyInfo = 20 then
        Some (sendChar host g_state 0x005E keyInfo @ [keybd_event (ucast VK_SPACE) 0 0 0])
      else if scanCode keyInfo = 27 then Some (sendChar host g_state 0x0337 keyInfo)
      else if scanCode keyInfo = 31 then
        (if is_kou_or_vue g_layout then
           Some (sendChar host g_state 0x0060 keyInfo @ [keybd_event (ucast VK_SPACE) 0 0 0])
         else None)
      else if scanCode keyInfo = 48 then
        (if is_kou_or_vue g_layout then
           Some (sendChar host g_state 0x0060 keyInfo @ [keybd_event (ucast VK_SPACE) 0 0 0])
         else None)
      else None)"

definition handleLayer4SpecialCases ::
  "Layout \<Rightarrow> Host \<Rightarrow> State \<Rightarrow> KBDLLHOOKSTRUCT \<Rightarrow> error + effect list option" where
  "handleLayer4SpecialCases g_layout host g_state keyInfo =
     (if scanCode keyInfo = 13 then Inr (Some (sendChar host g_state 0x00A8 keyInfo))
      else if scanCode keyInfo = 27 then Inr (Some (sendChar host g_state 0x02DD keyInfo))
      else if scanCode keyInfo = 41 then Inr (Some (sendChar host g_state 0x0307 keyInfo))
      else if unat (scanCode keyInfo) < MAPPING_LEN then
        (let mapped = level4_specials g_layout ! unat (scanCode keyInfo)
         in if mapped \<noteq> 0 then Inr (Some [keybd_event mapped 0 0x01 0]) else Inr None)
      else Inl OutOfBounds)"

subsection \<open>Predicates on keys and logging (lines 501-569)\<close>

definition isShift :: "KBDLLHOOKSTRUCT \<Rightarrow> bool" where
  "isShift keyInfo =
     (vkCode keyInfo = VK_SHIFT \<or> vkCode keyInfo = VK_LSHIFT \<or> vkCode keyInfo = VK_RSHIFT)"

definition isMod3 :: "Settings \<Rightarrow> KBDLLHOOKSTRUCT \<Rightarrow> bool" where
  "isMod3 g_settings keyInfo =
     (scanCode keyInfo = scanCodeMod3L g_settings \<or> scanCode keyInfo = scanCodeMod3R g_settings)"

definition isMod4 :: "Settings \<Rightarrow> KBDLLHOOKSTRUCT \<Rightarrow> bool" where
  "isMod4 g_settings keyInfo =
     (scanCode keyInfo = scanCodeMod4L g_settings \<or> vkCode keyInfo = VK_RMENU)"

definition isSystemKeyPressed :: "State \<Rightarrow> bool" where
  "isSystemKeyPressed g_state =
     (ctrlLeftPressed g_state \<or> ctrlRightPressed g_state
      \<or> altLeftPressed g_state
      \<or> winLeftPressed g_state \<or> winRightPressed g_state)"

definition isLetter :: "TCHAR \<Rightarrow> bool" where
  "isLetter key =
     ((0x41 \<le> key \<and> key \<le> 0x5A)
      \<or> (0x61 \<le> key \<and> key \<le> 0x7A)
      \<or> key = 0x00E4 \<or> key = 0x00F6
      \<or> key = 0x00FC \<or> key = 0x00DF
      \<or> key = 0x00C4 \<or> key = 0x00D6
      \<or> key = 0x00DC \<or> key = 0x1E9E)"

definition keyNameFor :: "Settings \<Rightarrow> DWORD \<Rightarrow> string" where
  "keyNameFor g_settings vk =
     (if vk = VK_LSHIFT then ''(Shift left)''
      else if vk = VK_RSHIFT then ''(Shift right)''
      else if vk = VK_SHIFT then ''(Shift)''
      else if vk = VK_CAPITAL then ''(M3 left)''
      else if vk = 0xde then (if quoteAsMod3R g_settings then ''(M3 right)'' else [])
      else if vk = 0xbf then (if quoteAsMod3R g_settings then [] else ''(M3 right)'')
      else if vk = VK_OEM_102 then ''(M4 left [<])''
      else if vk = VK_CONTROL then ''(Ctrl)''
      else if vk = VK_LCONTROL then ''(Ctrl left)''
      else if vk = VK_RCONTROL then ''(Ctrl right)''
      else if vk = VK_MENU then ''(Alt)''
      else if vk = VK_LMENU then ''(Alt left)''
      else if vk = VK_RMENU then ''(Alt right)''
      else if vk = VK_LWIN then ''(Win left)''
      else if vk = VK_RWIN then ''(Win right)''
      else if vk = VK_BACK then ''(Backspace)''
      else if vk = VK_RETURN then ''(Return)''
      else if 0x41 \<le> vk \<and> vk \<le> 0x5a then ''(A-Z)''
      else [])"

text \<open>
  \<open>logKeyEvent\<close> prints one line made of the description, the fields of the event, the
  key name and the two lock annotations.
\<close>

definition logKeyEvent :: "Settings \<Rightarrow> State \<Rightarrow> string \<Rightarrow> KBDLLHOOKSTRUCT \<Rightarrow> effect" where
  "logKeyEvent g_settings g_state desc keyInfo =
     (let keyName = keyNameFor g_settings (vkCode keyInfo);
          shiftLockCapsLockInfo =
            (if shiftLockActive g_state then '' [shift lock active]''
             else if capsLockActive g_state then '' [caps lock active]'' else []);
          level4LockInfo = (if level4LockActive g_state then '' [level4 lock active]'' else [])
      in LogKeyEvent desc keyInfo keyName shiftLockCapsLockInfo level4LockInfo)"

definition logActivation :: "string \<Rightarrow> bool \<Rightarrow> effect" where
  "logActivation name isActive = LogActivation name isActive"

text \<open>\<open>toggleBypassMode\<close>, lines 886-894.\<close>

definition toggleBypassMode :: "State \<Rightarrow> State \<times> effect list" where
  "toggleBypassMode g_state =
     (let g_state = g_state\<lparr>bypassMode := \<not> bypassMode g_state\<rparr>
      in (g_state, [trayicon_change_icon (bypassMode g_state), LogBypassMode (bypassMode g_state)]))"

subsection \<open>The hook procedure \<open>keyevent\<close> (lines 571-845)\<close>

text \<open>The level, computed on every key-down by the lambda of lines 763-772.\<close>

definition level :: "Settings \<Rightarrow> State \<Rightarrow> Level" where
  "level g_settings g_state =
     (let early =
            (if supportLevels5and6 g_settings then
               (if shiftPressed g_state \<noteq> shiftLockActive g_state \<and> mod3Pressed g_state
                then Some LEVEL_5
                else if mod3Pressed g_state \<and> mod4Pressed g_state \<noteq> level4LockActive g_state
                then Some LEVEL_6
                else None)
             else None)
      in case early of
           Some lv \<Rightarrow> lv
         | None \<Rightarrow>
             if mod4Pressed g_state \<noteq> level4LockActive g_state then LEVEL_4
             else if mod3Pressed g_state then LEVEL_3
             else if shiftPressed g_state \<noteq> shiftLockActive g_state then LEVEL_2
             else LEVEL_1)"

text \<open>
  The block that toggles shift lock or caps lock; the source has it twice, at lines
  606-612 and 618-624.
\<close>

definition toggleShiftOrCapsLock :: "Settings \<Rightarrow> State \<Rightarrow> State \<times> effect list" where
  "toggleShiftOrCapsLock g_settings g_state =
     (if shiftLockEnabled g_settings then
        (let s1 = g_state\<lparr>shiftLockActive := \<not> shiftLockActive g_state\<rparr>
         in (s1, [logActivation ''Shift lock'' (shiftLockActive s1)]))
      else if capsLockEnabled g_settings then
        (let s1 = g_state\<lparr>capsLockActive := \<not> capsLockActive g_state\<rparr>
         in (s1, [logActivation ''Caps lock'' (capsLockActive s1)]))
      else (g_state, []))"

text \<open>Key up of a shift key, lines 602-630.\<close>

definition keyUp_shift :: "Settings \<Rightarrow> State \<Rightarrow> KBDLLHOOKSTRUCT \<Rightarrow> State \<times> effect list \<times> verdict" where
  "keyUp_shift g_settings g_state keyInfo =
     (if vkCode keyInfo = VK_RSHIFT then
        (let s1 = g_state\<lparr>shiftRightPressed := False\<rparr>;
             r = (if shiftLeftPressed s1 then toggleShiftOrCapsLock g_settings s1 else (s1, []));
             s2 = fst r
         in (s2\<lparr>shiftPressed := (shiftLeftPressed s2 \<or> shiftRightPressed s2)\<rparr>,
             snd r @ [keybd_event (ucast VK_RSHIFT) 54 KEYEVENTF_KEYUP 0], Swallow))
      else
        (let s1 = g_state\<lparr>shiftLeftPressed := False\<rparr>;
             r = (if shiftRightPressed s1 then toggleShiftOrCapsLock g_settings s1 else (s1, []));
             s2 = fst r
         in (s2\<lparr>shiftPressed := (shiftLeftPressed s2 \<or> shiftRightPressed s2)\<rparr>,
             snd r @ [keybd_event (ucast VK_LSHIFT) 42 KEYEVENTF_KEYUP 0], Swallow)))"

text \<open>Key up of a level-3 modifier, lines 631-655.\<close>

definition keyUp_mod3 :: "Settings \<Rightarrow> State \<Rightarrow> KBDLLHOOKSTRUCT \<Rightarrow> State \<times> effect list \<times> verdict" where
  "keyUp_mod3 g_settings g_state keyInfo =
     (if scanCode keyInfo = scanCodeMod3R g_settings then
        (let s1 = g_state\<lparr>level3modRightPressed := False\<rparr>
         in if mod3RAsReturn g_settings \<and> level3modRightAndNoOtherKeyPressed s1 then
              (s1\<lparr>level3modRightAndNoOtherKeyPressed := False\<rparr>,
               [keybd_event (ucast (vkCode keyInfo)) 0 KEYEVENTF_KEYUP 0,
                keybd_event (ucast VK_RETURN) 0 0x01 0],
               Swallow)
            else
              (s1\<lparr>mod3Pressed := (level3modLeftPressed s1 \<or> level3modRightPressed s1)\<rparr>,
               [], Swallow))
      else
        (let s1 = g_state\<lparr>level3modLeftPressed := False\<rparr>
         in if capsLockAsEscape g_settings \<and> level3modLeftAndNoOtherKeyPressed s1 then
              (s1\<lparr>level3modLeftAndNoOtherKeyPressed := False\<rparr>,
               [keybd_event (ucast VK_CAPITAL) 0 KEYEVENTF_KEYUP 0,
                keybd_event (ucast VK_ESCAPE) 0 0x01 0],
               Swallow)
            else
              (s1\<lparr>mod3Pressed := (level3modLeftPressed s1 \<or> level3modRightPressed s1)\<rparr>,
               [], Swallow)))"

text \<open>Key up of a level-4 modifier, lines 656-679.\<close>

definition keyUp_mod4 :: "Settings \<Rightarrow> State \<Rightarrow> KBDLLHOOKSTRUCT \<Rightarrow> State \<times> effect list \<times> verdict" where
  "keyUp_mod4 g_settings g_state keyInfo =
     (if scanCode keyInfo = scanCodeMod4L g_settings then
        (let s1 = g_state\<lparr>level4modLeftPressed := False\<rparr>
         in if level4modRightPressed s1 \<and> level4LockEnabled g_settings then
              (let s2 = s1\<lparr>level4LockActive := \<not> level4LockActive s1\<rparr>
               in (s2\<lparr>mod4Pressed := (level4modLeftPressed s2 \<or> level4modRightPressed s2)\<rparr>,
                   [logActivation ''Level4 lock'' (level4LockActive s2)], Swallow))
            else if mod4LAsTab g_settings \<and> level4modLeftAndNoOtherKeyPressed s1 then
              (s1\<lparr>level4modLeftAndNoOtherKeyPressed := False\<rparr>,
               [keybd_event (ucast (vkCode keyInfo)) 0 KEYEVENTF_KEYUP 0,
                keybd_event (ucast VK_TAB) 0 0x01 0],
               Swallow)
            else
              (s1\<lparr>mod4Pressed := (level4modLeftPressed s1 \<or> level4modRightPressed s1)\<rparr>,
               [], Swallow))
      else
        (let s1 = g_state\<lparr>level4modRightPressed := False\<rparr>;
             r = (if level4modLeftPressed s1 \<and> level4LockEnabled g_settings then
                    (let s2 = s1\<lparr>level4LockActive := \<not> level4LockActive s1\<rparr>
                     in (s2, [logActivation ''Level4 lock'' (level4LockActive s2)]))
                  else (s1, []));
             s3 = fst r
         in (s3\<lparr>mod4Pressed := (level4modLeftPressed s3 \<or> level4modRightPressed s3)\<rparr>,
             snd r, Swallow)))"

text \<open>Key up of Ctrl, Alt and Win, lines 681-716, and of every other key.\<close>

definition keyUp_system :: "Settings \<Rightarrow> State \<Rightarrow> KBDLLHOOKSTRUCT \<Rightarrow> State \<times> effect list \<times> verdict" where
  "keyUp_system g_settings g_state keyInfo =
     (if vkCode keyInfo = VK_LCONTROL \<and> scanCode keyInfo = 29 then
        (if swapLeftCtrlAndLeftAlt g_settings then
           (g_state\<lparr>altLeftPressed := False\<rparr>,
            [keybd_event (ucast VK_LMENU) 0 KEYEVENTF_KEYUP 0], Swallow)
         else if swapLeftCtrlLeftAltAndLeftWin g_settings then
           (g_state\<lparr>winLeftPressed := False\<rparr>,
            [keybd_event (ucast VK_LWIN) 0 KEYEVENTF_KEYUP 0], Swallow)
         else
           (g_state\<lparr>ctrlLeftPressed := False\<rparr>,
            [keybd_event (ucast VK_LCONTROL) 0 KEYEVENTF_KEYUP 0], Swallow))
      else if vkCode keyInfo = VK_RCONTROL then
        (g_state\<lparr>ctrlRightPressed := False\<rparr>, [], CallNextHookEx)
      else if vkCode keyInfo = VK_LMENU then
        (if swapLeftCtrlAndLeftAlt g_settings \<or> swapLeftCtrlLeftAltAndLeftWin g_settings then
           (g_state\<lparr>ctrlLeftPressed := False\<rparr>,
            [keybd_event (ucast VK_LCONTROL) 0 KEYEVENTF_KEYUP 0], Swallow)
         else
           (g_state\<lparr>altLeftPressed := False\<rparr>,
            [keybd_event (ucast VK_LMENU) 0 KEYEVENTF_KEYUP 0], Swallow))
      else if vkCode keyInfo = VK_LWIN then
        (if swapLeftCtrlLeftAltAndLeftWin g_settings then
           (g_state\<lparr>altLeftPressed := False\<rparr>,
            [keybd_event (ucast VK_LMENU) 0 KEYEVENTF_KEYUP 0], Swallow)
         else
           (g_state\<lparr>winLeftPressed := False\<rparr>,
            [keybd_event (ucast VK_LWIN) 0 KEYEVENTF_KEYUP 0], Swallow))
      else if vkCode keyInfo = VK_RWIN then
        (g_state\<lparr>winRightPressed := False\<rparr>, [], CallNextHookEx)
      else (g_state, [], CallNextHookEx))"

text \<open>The key-up branch, lines 599-717: the log line, then the first case that applies.\<close>

definition keyevent_keyUp :: "Settings \<Rightarrow> State \<Rightarrow> KBDLLHOOKSTRUCT \<Rightarrow> State \<times> effect list \<times> verdict" where
  "keyevent_keyUp g_settings g_state keyInfo =
     (let r = (if isShift keyInfo then keyUp_shift g_settings g_state keyInfo
               else if isMod3 g_settings keyInfo then keyUp_mod3 g_settings g_state keyInfo
               else if isMod4 g_settings keyInfo then keyUp_mod4 g_settings g_state keyInfo
               else keyUp_system g_settings g_state keyInfo)
      in (fst r, logKeyEvent g_settings g_state ''key up'' keyInfo # fst (snd r), snd (snd r)))"

text \<open>
  Key down of a key that is not a modifier, lines 810-836: the special cases of the
  level, the numeric keypad, and the lookup in the table of the level.
\<close>

definition keyDown_map ::
  "Settings \<Rightarrow> Layout \<Rightarrow> Host \<Rightarrow> State \<Rightarrow> KBDLLHOOKSTRUCT \<Rightarrow> Level
     \<Rightarrow> error + State \<times> effect list \<times> verdict" where
  "keyDown_map g_settings g_layout host g_state keyInfo lv =
     (case (if lv = LEVEL_2 then handleLayer2SpecialCases host g_state keyInfo else None) of
        Some out \<Rightarrow> Inr (g_state, out, Swallow)
      | None \<Rightarrow>
     (case (if lv = LEVEL_3 then handleLayer3SpecialCases g_layout host g_state keyInfo else None) of
        Some out \<Rightarrow> Inr (g_state, out, Swallow)
      | None \<Rightarrow>
     (case (if lv = LEVEL_4 then handleLayer4SpecialCases g_layout host g_state keyInfo
            else Inr None) of
        Inl e \<Rightarrow> Inl e
      | Inr (Some out) \<Rightarrow> Inr (g_state, out, Swallow)
      | Inr None \<Rightarrow>
          if 0x60 \<le> vkCode keyInfo \<and> vkCode keyInfo \<le> 0x6F then
            Inr (g_state, [], CallNextHookEx)
          else if \<not> (qwertzForShortcuts g_settings \<and> isSystemKeyPressed g_state) then
            (case mapScanCodeToChar g_layout lv (unat (scanCode keyInfo)) of
               Inl e \<Rightarrow> Inl e
             | Inr key0 \<Rightarrow>
            (case (if capsLockActive g_state \<and> (lv = LEVEL_1 \<or> lv = LEVEL_2) \<and> isLetter key0
                   then mapScanCodeToChar g_layout (if lv = LEVEL_1 then LEVEL_2 else LEVEL_1)
                          (unat (scanCode keyInfo))
                   else Inr key0) of
               Inl e \<Rightarrow> Inl e
             | Inr key \<Rightarrow>
                 if key \<noteq> 0 \<and> flags keyInfo AND LLKHF_INJECTED = 0 then
                   Inr (g_state,
                        LogMapped (scanCode keyInfo) (MapVirtualKeyA host (vkCode keyInfo)) key lv
                          # sendChar host g_state key keyInfo,
                        Swallow)
                 else Inr (g_state, [], CallNextHookEx)))
          else Inr (g_state, [], CallNextHookEx))))"

text \<open>
  Key down from line 763 on: the level is computed from the state as it is then, and
  the shift, level-3 and level-4 modifier keys are handled before any lookup.
\<close>

definition keyDown_level ::
  "Settings \<Rightarrow> Layout \<Rightarrow> Host \<Rightarrow> State \<Rightarrow> KBDLLHOOKSTRUCT
     \<Rightarrow> error + State \<times> effect list \<times> verdict" where
  "keyDown_level g_settings g_layout host g_state keyInfo =
     (let lv = level g_settings g_state
      in if isShift keyInfo then
           (let s1 = g_state\<lparr>shiftPressed := True\<rparr>
            in if vkCode keyInfo = VK_RSHIFT then
                 Inr (s1\<lparr>shiftRightPressed := True\<rparr>,
                      [keybd_event (ucast VK_RSHIFT) 0 0 0], Swallow)
               else
                 Inr (s1\<lparr>shiftLeftPressed := True\<rparr>,
                      [keybd_event (ucast VK_LSHIFT) 0 0 0], Swallow))
         else if isMod3 g_settings keyInfo then
           (let s1 = g_state\<lparr>mod3Pressed := True\<rparr>
            in if scanCode keyInfo = scanCodeMod3R g_settings then
                 Inr (s1\<lparr>level3modRightPressed := True,
                         level3modRightAndNoOtherKeyPressed := True\<rparr>, [], Swallow)
               else
                 Inr (s1\<lparr>level3modLeftPressed := True,
                         level3modLeftAndNoOtherKeyPressed := True\<rparr>, [], Swallow))
         else if isMod4 g_settings keyInfo then
           (let s1 = g_state\<lparr>mod4Pressed := True\<rparr>
            in if scanCode keyInfo = scanCodeMod4L g_settings then
                 Inr (s1\<lparr>level4modLeftPressed := True,
                         level4modLeftAndNoOtherKeyPressed := True\<rparr>, [], Swallow)
               else
                 Inr (s1\<lparr>level4modRightPressed := True\<rparr>,
                      [keybd_event (ucast VK_RMENU) 0 KEYEVENTF_KEYUP 0], Swallow))
         else keyDown_map g_settings g_layout host g_state keyInfo lv)"

text \<open>
  The key-down branch, lines 719-837: the log line, the three tap flags cleared, Ctrl,
  Alt and Win, and then the code from line 763 on.
\<close>

definition keyevent_keyDown ::
  "Settings \<Rightarrow> Layout \<Rightarrow> Host \<Rightarrow> State \<Rightarrow> KBDLLHOOKSTRUCT
     \<Rightarrow> error + State \<times> effect list \<times> verdict" where
  "keyevent_keyDown g_settings g_layout host g_state keyInfo =
     (let s0 = g_state\<lparr>level3modLeftAndNoOtherKeyPressed := False,
                       level3modRightAndNoOtherKeyPressed := False,
                       level4modLeftAndNoOtherKeyPressed := False\<rparr>;
          r = (if vkCode keyInfo = VK_LCONTROL \<and> scanCode keyInfo = 29 then
                 (if swapLeftCtrlAndLeftAlt g_settings then
                    Inr (s0\<lparr>altLeftPressed := True\<rparr>,
                         [keybd_event (ucast VK_LMENU) 0 0 0], Swallow)
                  else if swapLeftCtrlLeftAltAndLeftWin g_settings then
                    Inr (s0\<lparr>winLeftPressed := True\<rparr>,
                         [keybd_event (ucast VK_LWIN) 0 0 0], Swallow)
                  else
                    Inr (s0\<lparr>ctrlLeftPressed := True\<rparr>,
                         [keybd_event (ucast VK_LCONTROL) 0 0 0], Swallow))
               else if vkCode keyInfo = VK_RCONTROL then
                 keyDown_level g_settings g_layout host (s0\<lparr>ctrlRightPressed := True\<rparr>) keyInfo
               else if vkCode keyInfo = VK_LMENU then
                 (if swapLeftCtrlAndLeftAlt g_settings \<or> swapLeftCtrlLeftAltAndLeftWin g_settings
                  then
                    Inr (s0\<lparr>ctrlLeftPressed := True\<rparr>,
                         [keybd_event (ucast VK_LCONTROL) 0 0 0], Swallow)
                  else
                    Inr (s0\<lparr>altLeftPressed := True\<rparr>,
                         [keybd_event (ucast VK_LMENU) 0 0 0], Swallow))
               else if vkCode keyInfo = VK_LWIN then
                 (if swapLeftCtrlLeftAltAndLeftWin g_settings then
                    Inr (s0\<lparr>altLeftPressed := True\<rparr>,
                         [keybd_event (ucast VK_LMENU) 0 0 0], Swallow)
                  else
                    Inr (s0\<lparr>winLeftPressed := True\<rparr>,
                         [keybd_event (ucast VK_LWIN) 0 0 0], Swallow))
               else if vkCode keyInfo = VK_RWIN then
                 keyDown_level g_settings g_layout host (s0\<lparr>winRightPressed := True\<rparr>) keyInfo
               else keyDown_level g_settings g_layout host s0 keyInfo)
      in case r of
           Inl e \<Rightarrow> Inl e
         | Inr (s1, out, v) \<Rightarrow>
             Inr (s1, logKeyEvent g_settings g_state (CHR 0x0A # ''key down'') keyInfo # out, v))"

text \<open>
  The hook procedure.  Its result is the new \<open>g_state\<close>, what it emitted, and whether
  it passed the event on.
\<close>

definition keyevent ::
  "Settings \<Rightarrow> Layout \<Rightarrow> Host \<Rightarrow> State \<Rightarrow> HookCall
     \<Rightarrow> error + State \<times> effect list \<times> verdict" where
  "keyevent g_settings g_layout host g_state call =
     (if nCode call \<noteq> HC_ACTION then Inr (g_state, [], CallNextHookEx)
      else
        let keyUp = (wParam call = WM_SYSKEYUP \<or> wParam call = WM_KEYUP);
            keyDown = (wParam call = WM_SYSKEYDOWN \<or> wParam call = WM_KEYDOWN);
            keyInfo = lParam call
        in if \<not> keyUp \<and> \<not> keyDown then Inr (g_state, [], CallNextHookEx)
           else if flags keyInfo AND LLKHF_INJECTED \<noteq> 0 then
             Inr (g_state, [logKeyEvent g_settings g_state ''injected'' keyInfo], CallNextHookEx)
           else if keyDown \<and> shiftPressed g_state \<and> scanCode keyInfo = 69 then
             (let r = toggleBypassMode g_state in Inr (fst r, snd r, Swallow))
           else if bypassMode g_state then Inr (g_state, [], CallNextHookEx)
           else if keyUp then Inr (keyevent_keyUp g_settings g_state keyInfo)
           else if keyDown then keyevent_keyDown g_settings g_layout host g_state keyInfo
           else Inr (g_state, [], CallNextHookEx))"

text \<open>
  The hook thread calls \<open>keyevent\<close> once for every event, in order; \<open>run\<close> is that
  sequence of calls on the global state, with everything emitted on the way.
\<close>

fun run ::
  "Settings \<Rightarrow> Layout \<Rightarrow> Host \<Rightarrow> State \<Rightarrow> HookCall list \<Rightarrow> error + State \<times> effect list" where
  "run g_settings g_layout host g_state [] = Inr (g_state, [])"
| "run g_settings g_layout host g_state (call # calls) =
     (case keyevent g_settings g_layout host g_state call of
        Inl e \<Rightarrow> Inl e
      | Inr (s1, out, v) \<Rightarrow>
          (case run g_settings g_layout host s1 calls of
             Inl e \<Rightarrow> Inl e
           | Inr (s2, outs) \<Rightarrow> Inr (s2, out @ outs)))"

subsection \<open>The level table in the words of the specification\<close>

text \<open>
  The priority list of the specification, first match wins: level 5 if extended levels
  are enabled and (shift XOR shift lock) and mod3; else level 6 if extended levels are
  enabled and mod3 and (mod4 XOR level-4 lock); else level 4 if (mod4 XOR level-4
  lock); else level 3 if mod3; else level 2 if (shift XOR shift lock); else level 1.
\<close>

definition level_spec :: "bool \<Rightarrow> bool \<Rightarrow> bool \<Rightarrow> bool \<Rightarrow> bool \<Rightarrow> bool \<Rightarrow> Level" where
  "level_spec extended shiftP mod3P mod4P shiftLock level4Lock =
     (if extended \<and> (shiftP \<noteq> shiftLock) \<and> mod3P then LEVEL_5
      else if extended \<and> mod3P \<and> (mod4P \<noteq> level4Lock) then LEVEL_6
      else if mod4P \<noteq> level4Lock then LEVEL_4
      else if mod3P then LEVEL_3
      else if shiftP \<noteq> shiftLock then LEVEL_2
      else LEVEL_1)"

subsection \<open>Notions used in the proofs\<close>

text \<open>Every table of a layout has the \<open>MAPPING_LEN\<close> entries of its array.\<close>

definition wf_layout :: "Layout \<Rightarrow> bool" where
  "wf_layout l =
     ((\<forall>lv. length (levels l lv) = MAPPING_LEN) \<and> length (level4_specials l) = MAPPING_LEN)"

definition preserves :: "(Layout \<Rightarrow> Layout) \<Rightarrow> bool" where
  "preserves f = (\<forall>l. wf_layout l \<longrightarrow> wf_layout (f l))"

text \<open>
  The calls of the hook that get past lines 574-589: the code is \<open>HC_ACTION\<close>, the
  message is a key-down (respectively a key-up), and the event is not flagged as
  injected.
\<close>

definition hwKeyDown :: "HookCall \<Rightarrow> bool" where
  "hwKeyDown call =
     (nCode call = HC_ACTION \<and> (wParam call = WM_SYSKEYDOWN \<or> wParam call = WM_KEYDOWN)
      \<and> flags (lParam call) AND LLKHF_INJECTED = 0)"

definition hwKeyUp :: "HookCall \<Rightarrow> bool" where
  "hwKeyUp call =
     (nCode call = HC_ACTION \<and> (wParam call = WM_SYSKEYUP \<or> wParam call = WM_KEYUP)
      \<and> flags (lParam call) AND LLKHF_INJECTED = 0)"

text \<open>
  Concrete calls of the hook, for the examples: a key-down and a key-up of the key with
  virtual key \<open>vk\<close> and scan code \<open>sc\<close>, as the system delivers them for a physical
  key (a key-up carries the flag \<open>LLKHF_UP\<close> = 0x80), and the host functions of a
  system whose keyboard layout has none of the characters.
\<close>

definition keyDownCall :: "DWORD \<Rightarrow> DWORD \<Rightarrow> HookCall" where
  "keyDownCall vk sc =
     \<lparr>nCode = HC_ACTION, wParam = WM_KEYDOWN,
      lParam = \<lparr>vkCode = vk, scanCode = sc, flags = 0, time = 0, dwExtraInfo = 0\<rparr>\<rparr>"

definition keyUpCall :: "DWORD \<Rightarrow> DWORD \<Rightarrow> HookCall" where
  "keyUpCall vk sc =
     \<lparr>nCode = HC_ACTION, wParam = WM_KEYUP,
      lParam = \<lparr>vkCode = vk, scanCode = sc, flags = 0x80, time = 0, dwExtraInfo = 0\<rparr>\<rparr>"

definition noLayoutHost :: Host where
  "noLayoutHost = \<lparr>VkKeyScanEx = (\<lambda>key. - 1), MapVirtualKeyA = (\<lambda>vk. 0)\<rparr>"

text \<open>What a run has emitted (nothing is recorded for a run that went out of bounds).\<close>

definition emitted :: "error + State \<times> effect list \<Rightarrow> effect list" where
  "emitted r = (case r of Inl e \<Rightarrow> [] | Inr (s, out) \<Rightarrow> out)"

text \<open>
  An event between the press and the release of the right level-3 modifier that is
  neither a key-down that reaches the classifier nor a key-up of that modifier.
\<close>

definition noKeyDownNorMod3RUp :: "Settings \<Rightarrow> HookCall \<Rightarrow> bool" where
  "noKeyDownNorMod3RUp g_settings call =
     (\<not> hwKeyDown call
      \<and> \<not> (hwKeyUp call \<and> scanCode (lParam call) = scanCodeMod3R g_settings))"

text \<open>
  For a shift key event: the other shift key is recorded as held (lines 605 and 617).
\<close>

definition otherShiftHeld :: "State \<Rightarrow> KBDLLHOOKSTRUCT \<Rightarrow> bool" where
  "otherShiftHeld g_state keyInfo =
     (if vkCode keyInfo = VK_RSHIFT then shiftLeftPressed g_state else shiftRightPressed g_state)"

text \<open>A result of the hook procedure, if it is one, has a state with the property \<open>Q\<close>.\<close>

definition results_satisfy ::
  "(State \<Rightarrow> bool) \<Rightarrow> error + State \<times> effect list \<times> verdict \<Rightarrow> bool" where
  "results_satisfy Q r = (case r of Inl e \<Rightarrow> True | Inr (s, out, v) \<Rightarrow> Q s)"

text \<open>
  An event of the right level-3 modifier key: its scan code is \<open>scanCodeMod3R\<close>, and its
  virtual key is none of those that the hook procedure handles before it asks \<open>isMod3\<close>
  (a shift key, left Alt, left Win).
\<close>

definition isMod3RKey :: "Settings \<Rightarrow> KBDLLHOOKSTRUCT \<Rightarrow> bool" where
  "isMod3RKey g_settings keyInfo =
     (scanCode keyInfo = scanCodeMod3R g_settings \<and> \<not> isShift keyInfo
      \<and> vkCode keyInfo \<noteq> VK_LMENU \<and> vkCode keyInfo \<noteq> VK_LWIN)"

text \<open>The settings of the examples for the tap of the right level-3 modifier.\<close>

definition tapSettings :: Settings where
  "tapSettings = sanitize (defaultSettings\<lparr>mod3RAsReturn := True\<rparr>)"

section \<open>Properties of the layout builder\<close>

lemmas vk_defs =
  VK_BACK_def VK_TAB_def VK_RETURN_def VK_SHIFT_def VK_CONTROL_def VK_MENU_def
  VK_CAPITAL_def VK_ESCAPE_def VK_SPACE_def VK_PRIOR_def VK_NEXT_def VK_END_def
  VK_HOME_def VK_LEFT_def VK_UP_def VK_RIGHT_def VK_DOWN_def VK_INSERT_def
  VK_DELETE_def VK_LWIN_def VK_RWIN_def VK_LSHIFT_def VK_RSHIFT_def VK_LCONTROL_def
  VK_RCONTROL_def VK_LMENU_def VK_RMENU_def VK_OEM_102_def

lemmas wm_defs =
  HC_ACTION_def WM_KEYDOWN_def WM_KEYUP_def WM_SYSKEYDOWN_def WM_SYSKEYUP_def
  LLKHF_INJECTED_def KEYEVENTF_KEYUP_def

lemmas scancode_defs =
  SCANCODE_TAB_KEY_def SCANCODE_CAPSLOCK_KEY_def SCANCODE_LOWER_THAN_KEY_def
  SCANCODE_QUOTE_KEY_def SCANCODE_HASH_KEY_def SCANCODE_RETURN_KEY_def

lemma seq_Nil: "seq [] x = x"
  by (simp add: seq_def)

lemma seq_Cons: "seq (f # fs) x = seq fs (f x)"
  by (simp add: seq_def)

lemma length_fillAtLiteral: "length (fillAtLiteral off p m) = length m"
proof -
  have "length (fold (\<lambda>i m. m[off + i := p ! i]) is m) = length m" for "is"
    by (induction "is" arbitrary: m) simp_all
  then show ?thesis by (simp add: fillAtLiteral_def)
qed

lemma length_mapLevelsLetters: "length (mapLevelsLetters base out newChars) = length out"
proof -
  have "length (fold (\<lambda>i out. let c = findIndex lowerLetters (base ! i)
             in if c \<noteq> - 1 then out[i := newChars ! nat c] else out) is out) = length out" for "is"
    by (induction "is" arbitrary: out) (simp_all add: Let_def)
  then show ?thesis by (simp add: mapLevelsLetters_def)
qed

lemma preserves_seq_Nil: "preserves (seq [])"
  by (simp add: preserves_def seq_Nil)

lemma preserves_seq_Cons: "preserves f \<Longrightarrow> preserves (seq fs) \<Longrightarrow> preserves (seq (f # fs))"
  by (simp add: preserves_def seq_Cons)

lemma preserves_if: "preserves f \<Longrightarrow> preserves g \<Longrightarrow> preserves (if c then f else g)"
  by simp

lemma preserves_if_layout:
  "preserves f \<Longrightarrow> preserves g \<Longrightarrow> preserves (\<lambda>l. (if P l then f else g) l)"
  by (simp add: preserves_def)

lemma preserves_stmts:
  "preserves (fillLevel lv off p)" "preserves (mapLetters b out p)"
  "preserves (setMapping lv i c)" "preserves (copyMapping lv i j)"
  "preserves (setSpecial i vk)" "preserves (\<lambda>l. l\<lparr>is_kou_or_vue := True\<rparr>)"
  by (simp_all add: preserves_def wf_layout_def fillLevel_def mapLetters_def setMapping_def
        copyMapping_def setSpecial_def length_fillAtLiteral length_mapLevelsLetters)

lemmas preserves_intros =
  preserves_seq_Cons preserves_seq_Nil preserves_if preserves_if_layout preserves_stmts

lemma preserves_blocks:
  "preserves sameForAllLayouts" "preserves (layoutDependent settings)"
  "preserves mapLetterLevels" "preserves numberRowLevels5and6"
  "preserves (copyQuoteToHash settings)" "preserves fillLevel4Specials"
  unfolding sameForAllLayouts_def layoutDependent_def mapLetterLevels_def
    numberRowLevels5and6_def copyQuoteToHash_def fillLevel4Specials_def
  by (intro preserves_intros)+

lemma wf_emptyLayout: "wf_layout emptyLayout"
  by (simp add: wf_layout_def emptyLayout_def)

lemma wf_buildLayout: "wf_layout (buildLayout settings)"
  unfolding buildLayout_def
  by (rule preserves_def [THEN iffD1, rule_format, OF _ wf_emptyLayout])
     (intro preserves_intros preserves_blocks)

lemma proj_stmts:
  "is_kou_or_vue (fillLevel lv off p l) = is_kou_or_vue l"
  "is_kou_or_vue (mapLetters b out q l) = is_kou_or_vue l"
  "is_kou_or_vue (setMapping lv i c l) = is_kou_or_vue l"
  "is_kou_or_vue (copyMapping lv i j l) = is_kou_or_vue l"
  "is_kou_or_vue (setSpecial i vk l) = is_kou_or_vue l"
  "level4_specials (fillLevel lv off p l) = level4_specials l"
  "level4_specials (mapLetters b out q l) = level4_specials l"
  "level4_specials (setMapping lv i c l) = level4_specials l"
  "level4_specials (copyMapping lv i j l) = level4_specials l"
  "level4_specials (setSpecial i vk l) = (level4_specials l)[i := ucast vk]"
  "levels (setSpecial i vk l) = levels l"
  "levels (setMapping lv i c l) = (levels l)(lv := (levels l lv)[i := c])"
  "levels (copyMapping lv i j l) = (levels l)(lv := (levels l lv)[i := levels l lv ! j])"
  by (simp_all add: fillLevel_def mapLetters_def setMapping_def copyMapping_def setSpecial_def)

lemma flag_blocks:
  "is_kou_or_vue (sameForAllLayouts l) = is_kou_or_vue l"
  "is_kou_or_vue (mapLetterLevels l) = is_kou_or_vue l"
  "is_kou_or_vue (numberRowLevels5and6 l) = is_kou_or_vue l"
  "is_kou_or_vue (copyQuoteToHash settings l) = is_kou_or_vue l"
  "is_kou_or_vue (fillLevel4Specials l) = is_kou_or_vue l"
  "is_kou_or_vue (layoutDependent settings l) =
     (layout settings = ''kou'' \<or> layout settings = ''vou'' \<or> is_kou_or_vue l)"
  by (simp_all add: sameForAllLayouts_def mapLetterLevels_def numberRowLevels5and6_def
        copyQuoteToHash_def fillLevel4Specials_def layoutDependent_def seq_Cons seq_Nil
        proj_stmts)

lemma specials_blocks:
  "level4_specials (sameForAllLayouts l) = level4_specials l"
  "level4_specials (mapLetterLevels l) = level4_specials l"
  "level4_specials (numberRowLevels5and6 l) = level4_specials l"
  "level4_specials (copyQuoteToHash settings l) = level4_specials l"
  "level4_specials (layoutDependent settings l) = level4_specials l"
  by (simp_all add: sameForAllLayouts_def mapLetterLevels_def numberRowLevels5and6_def
        copyQuoteToHash_def layoutDependent_def seq_Cons seq_Nil proj_stmts)

lemma specials_fillLevel4Specials:
  "level4_specials (fillLevel4Specials l) =
     (if is_kou_or_vue l then
        (level4_specials l)
          [16 := ucast VK_PRIOR, 17 := ucast VK_NEXT, 18 := ucast VK_UP, 19 := ucast VK_BACK,
           20 := ucast VK_DELETE, 30 := ucast VK_HOME, 31 := ucast VK_LEFT, 32 := ucast VK_DOWN,
           33 := ucast VK_RIGHT, 34 := ucast VK_END, 44 := ucast VK_INSERT, 45 := ucast VK_TAB,
           46 := ucast VK_RETURN, 47 := ucast VK_ESCAPE, 57 := 0x30]
      else
        (level4_specials l)
          [16 := ucast VK_PRIOR, 17 := ucast VK_BACK, 18 := ucast VK_UP, 19 := ucast VK_DELETE,
           20 := ucast VK_NEXT, 30 := ucast VK_HOME, 31 := ucast VK_LEFT, 32 := ucast VK_DOWN,
           33 := ucast VK_RIGHT, 34 := ucast VK_END, 44 := ucast VK_ESCAPE, 45 := ucast VK_TAB,
           46 := ucast VK_INSERT, 47 := ucast VK_RETURN, 57 := 0x30])"
  by (simp add: fillLevel4Specials_def seq_Cons seq_Nil proj_stmts)

lemma levels_fillLevel4Specials: "levels (fillLevel4Specials l) = levels l"
  by (simp add: fillLevel4Specials_def seq_Cons seq_Nil proj_stmts)

lemma flag_buildLayout:
  "is_kou_or_vue (buildLayout settings) = (layout settings = ''kou'' \<or> layout settings = ''vou'')"
  by (simp add: buildLayout_def seq_Cons seq_Nil flag_blocks emptyLayout_def proj_stmts)

lemma specials_buildLayout:
  "level4_specials (buildLayout settings) =
     (if layout settings = ''kou'' \<or> layout settings = ''vou'' then
        (replicate MAPPING_LEN 0)
          [16 := ucast VK_PRIOR, 17 := ucast VK_NEXT, 18 := ucast VK_UP, 19 := ucast VK_BACK,
           20 := ucast VK_DELETE, 30 := ucast VK_HOME, 31 := ucast VK_LEFT, 32 := ucast VK_DOWN,
           33 := ucast VK_RIGHT, 34 := ucast VK_END, 44 := ucast VK_INSERT, 45 := ucast VK_TAB,
           46 := ucast VK_RETURN, 47 := ucast VK_ESCAPE, 57 := 0x30]
      else
        (replicate MAPPING_LEN 0)
          [16 := ucast VK_PRIOR, 17 := ucast VK_BACK, 18 := ucast VK_UP, 19 := ucast VK_DELETE,
           20 := ucast VK_NEXT, 30 := ucast VK_HOME, 31 := ucast VK_LEFT, 32 := ucast VK_DOWN,
           33 := ucast VK_RIGHT, 34 := ucast VK_END, 44 := ucast VK_ESCAPE, 45 := ucast VK_TAB,
           46 := ucast VK_INSERT, 47 := ucast VK_RETURN, 57 := 0x30])"
  by (simp add: buildLayout_def seq_Cons seq_Nil flag_blocks specials_blocks
        specials_fillLevel4Specials emptyLayout_def proj_stmts)

lemma levels_copyQuoteToHash:
  "quoteAsMod3R settings \<Longrightarrow>
   levels (copyQuoteToHash settings l) lv = (levels l lv)[43 := levels l lv ! 40]"
  by (cases lv) (simp_all add: copyQuoteToHash_def seq_Cons seq_Nil proj_stmts)

lemma quote_hash_buildLayout:
  assumes "quoteAsMod3R settings"
  shows "levels (buildLayout settings) lv ! 43 = levels (buildLayout settings) lv ! 40"
proof -
  define l0 where
    "l0 = numberRowLevels5and6 (mapLetterLevels (layoutDependent settings (sameForAllLayouts emptyLayout)))"
  have "wf_layout l0"
    unfolding l0_def
    by (intro preserves_blocks [unfolded preserves_def, rule_format] wf_emptyLayout)
  then have len: "length (levels l0 lv) = 103"
    by (simp add: wf_layout_def MAPPING_LEN_def)
  have "levels (buildLayout settings) lv =
          ((levels (copyQuoteToHash settings l0))(LEVEL_2 := (levels (copyQuoteToHash settings l0) LEVEL_2)[8 := 0x20AC])) lv"
    by (simp add: buildLayout_def seq_Cons seq_Nil levels_fillLevel4Specials l0_def proj_stmts)
  then show ?thesis
    using len assms by (cases "lv = LEVEL_2") (simp_all add: levels_copyQuoteToHash)
qed


section \<open>Claims about the layout builder and the level\<close>

text \<open>
  C1.  On every key-down the level is a function of \<open>shiftPressed\<close>, \<open>mod3Pressed\<close>,
  \<open>mod4Pressed\<close>, \<open>shiftLockActive\<close>, \<open>level4LockActive\<close> and the setting
  \<open>supportLevels5and6\<close> alone, and it is the level that the priority list of the
  specification gives, for each of the 32 combinations of the five flags and for the
  setting on and off; each combination has exactly one level.
\<close>

theorem level_priority_table:
  "level g_settings g_state =
     level_spec (supportLevels5and6 g_settings) (shiftPressed g_state) (mod3Pressed g_state)
       (mod4Pressed g_state) (shiftLockActive g_state) (level4LockActive g_state)
   \<and> (\<exists>!lv. level g_settings g_state = lv)"
  by (simp add: level_def level_spec_def)

text \<open>
  C6.  When \<open>quoteAsMod3R\<close> is set, in the layout built from the settings the entry at
  the scan code of the backslash/hash key (43) equals the entry at the scan code of the
  quote key (40), on each of the six levels.
\<close>

theorem quoteAsMod3R_hash_equals_quote:
  assumes "quoteAsMod3R settings"
  shows "levels (buildLayout settings) lv ! unat SCANCODE_HASH_KEY =
         levels (buildLayout settings) lv ! unat SCANCODE_QUOTE_KEY"
  using quote_hash_buildLayout [OF assms, of lv] by (simp add: scancode_defs)

theorem quoteAsMod3R_hash_equals_quote_witness:
  "quoteAsMod3R (defaultSettings\<lparr>quoteAsMod3R := True\<rparr>)
   \<and> levels (buildLayout (defaultSettings\<lparr>quoteAsMod3R := True\<rparr>)) LEVEL_3 ! unat SCANCODE_HASH_KEY =
     levels (buildLayout (defaultSettings\<lparr>quoteAsMod3R := True\<rparr>)) LEVEL_3 ! unat SCANCODE_QUOTE_KEY"
proof -
  have h: "quoteAsMod3R (defaultSettings\<lparr>quoteAsMod3R := True\<rparr>)"
    by simp
  show ?thesis
    using h quoteAsMod3R_hash_equals_quote [OF h, of LEVEL_3] by simp
qed

text \<open>
  C7.  For every settings record the level-4 table of virtual keys has the flag
  \<open>is_kou_or_vue\<close> set exactly for the variants kou and vou, and holds a fixed set of
  slots: 16, 30-34 and 57 hold the same codes for every variant, the group of slots
  17-20 holds next-page, up, backspace and delete and the group of slots 44-47 holds
  insert, tab, return and escape, each group in one order for kou and vou and in
  another order for all other variants, and every other slot is empty.  Outside these
  two groups of four slots the tables of any two settings agree; between the two
  families the slots 17, 19, 20, 44, 46 and 47 differ (up stays in slot 18 and tab in
  slot 45).
\<close>

theorem level4_specials_table:
  "let T = level4_specials (buildLayout settings);
       T' = level4_specials (buildLayout settings');
       kou = is_kou_or_vue (buildLayout settings);
       kou' = is_kou_or_vue (buildLayout settings')
   in kou = (layout settings = ''kou'' \<or> layout settings = ''vou'')
    \<and> length T = MAPPING_LEN
    \<and> map ((!) T) [16, 30, 31, 32, 33, 34, 57] =
        map ucast [VK_PRIOR, VK_HOME, VK_LEFT, VK_DOWN, VK_RIGHT, VK_END, 0x30]
    \<and> map ((!) T) [17, 18, 19, 20] =
        map ucast (if kou then [VK_NEXT, VK_UP, VK_BACK, VK_DELETE]
                   else [VK_BACK, VK_UP, VK_DELETE, VK_NEXT])
    \<and> map ((!) T) [44, 45, 46, 47] =
        map ucast (if kou then [VK_INSERT, VK_TAB, VK_RETURN, VK_ESCAPE]
                   else [VK_ESCAPE, VK_TAB, VK_INSERT, VK_RETURN])
    \<and> (\<forall>i < MAPPING_LEN.
          i \<notin> {16, 17, 18, 19, 20, 30, 31, 32, 33, 34, 44, 45, 46, 47, 57} \<longrightarrow> T ! i = 0)
    \<and> (\<forall>i < MAPPING_LEN. i \<notin> {17, 18, 19, 20, 44, 45, 46, 47} \<longrightarrow> T ! i = T' ! i)
    \<and> (kou \<noteq> kou' \<longrightarrow>
          T ! 17 \<noteq> T' ! 17 \<and> T ! 19 \<noteq> T' ! 19 \<and> T ! 20 \<noteq> T' ! 20
        \<and> T ! 44 \<noteq> T' ! 44 \<and> T ! 46 \<noteq> T' ! 46 \<and> T ! 47 \<noteq> T' ! 47
        \<and> T ! 18 = T' ! 18 \<and> T ! 45 = T' ! 45)"
  by (simp add: Let_def flag_buildLayout specials_buildLayout MAPPING_LEN_def vk_defs
        nth_list_update)

theorem level4_specials_table_witness:
  "level4_specials (buildLayout (defaultSettings\<lparr>layout := ''kou''\<rparr>)) ! 17 = ucast VK_NEXT
   \<and> level4_specials (buildLayout defaultSettings) ! 17 = ucast VK_BACK
   \<and> level4_specials (buildLayout (defaultSettings\<lparr>layout := ''kou''\<rparr>)) ! 17 \<noteq>
       level4_specials (buildLayout defaultSettings) ! 17
   \<and> level4_specials (buildLayout (defaultSettings\<lparr>layout := ''kou''\<rparr>)) ! 31 =
       level4_specials (buildLayout defaultSettings) ! 31
   \<and> level4_specials (buildLayout defaultSettings) ! 21 = 0"
proof -
  note t = level4_specials_table [of "defaultSettings\<lparr>layout := ''kou''\<rparr>" defaultSettings,
      unfolded Let_def]
  have kou: "is_kou_or_vue (buildLayout (defaultSettings\<lparr>layout := ''kou''\<rparr>))"
    using t by simp
  note t' = level4_specials_table [of defaultSettings "defaultSettings\<lparr>layout := ''kou''\<rparr>",
      unfolded Let_def]
  have nkou: "\<not> is_kou_or_vue (buildLayout defaultSettings)"
    using t' by (simp add: defaultSettings_def)
  have a: "level4_specials (buildLayout (defaultSettings\<lparr>layout := ''kou''\<rparr>)) ! 17 = ucast VK_NEXT"
    using t kou by simp
  have b: "level4_specials (buildLayout defaultSettings) ! 17 = ucast VK_BACK"
    using t' nkou by simp
  have c: "level4_specials (buildLayout (defaultSettings\<lparr>layout := ''kou''\<rparr>)) ! 17 \<noteq>
       level4_specials (buildLayout defaultSettings) ! 17"
    using t kou nkou by blast
  have "(31::nat) < MAPPING_LEN" "(31::nat) \<notin> {17, 18, 19, 20, 44, 45, 46, 47}"
    by (simp_all add: MAPPING_LEN_def)
  with t have d: "level4_specials (buildLayout (defaultSettings\<lparr>layout := ''kou''\<rparr>)) ! 31 =
       level4_specials (buildLayout defaultSettings) ! 31"
    by blast
  have "(21::nat) < MAPPING_LEN"
       "(21::nat) \<notin> {16, 17, 18, 19, 20, 30, 31, 32, 33, 34, 44, 45, 46, 47, 57}"
    by (simp_all add: MAPPING_LEN_def)
  with t' have e: "level4_specials (buildLayout defaultSettings) ! 21 = 0"
    by blast
  from a b c d e show ?thesis by simp
qed

text \<open>
  C9.  \<open>buildLayout\<close> reads nothing but its argument and writes nothing but its result;
  of the settings it reads only the layout name and \<open>quoteAsMod3R\<close>.  So two
  invocations on settings that agree on these two fields, and in particular on equal
  settings, give equal level tables, an equal flag \<open>is_kou_or_vue\<close> and an equal
  level-4 table.
\<close>

theorem buildLayout_deterministic:
  assumes "layout s1 = layout s2" and "quoteAsMod3R s1 = quoteAsMod3R s2"
  shows "(\<forall>lv. levels (buildLayout s1) lv = levels (buildLayout s2) lv)
         \<and> is_kou_or_vue (buildLayout s1) = is_kou_or_vue (buildLayout s2)
         \<and> level4_specials (buildLayout s1) = level4_specials (buildLayout s2)"
proof -
  have "buildLayout s1 = buildLayout s2"
    unfolding buildLayout_def layoutDependent_def copyQuoteToHash_def
    by (simp only: assms)
  then show ?thesis by simp
qed

theorem buildLayout_deterministic_witness:
  "layout (defaultSettings\<lparr>layout := ''bone''\<rparr>)
     = layout (defaultSettings\<lparr>layout := ''bone'', capsLockEnabled := True\<rparr>)
   \<and> quoteAsMod3R (defaultSettings\<lparr>layout := ''bone''\<rparr>)
     = quoteAsMod3R (defaultSettings\<lparr>layout := ''bone'', capsLockEnabled := True\<rparr>)
   \<and> levels (buildLayout (defaultSettings\<lparr>layout := ''bone''\<rparr>)) LEVEL_1
     = levels (buildLayout (defaultSettings\<lparr>layout := ''bone'', capsLockEnabled := True\<rparr>)) LEVEL_1
   \<and> level4_specials (buildLayout (defaultSettings\<lparr>layout := ''bone''\<rparr>))
     = level4_specials (buildLayout (defaultSettings\<lparr>layout := ''bone'', capsLockEnabled := True\<rparr>))"
proof -
  have h1: "layout (defaultSettings\<lparr>layout := ''bone''\<rparr>)
     = layout (defaultSettings\<lparr>layout := ''bone'', capsLockEnabled := True\<rparr>)"
    by simp
  have h2: "quoteAsMod3R (defaultSettings\<lparr>layout := ''bone''\<rparr>)
     = quoteAsMod3R (defaultSettings\<lparr>layout := ''bone'', capsLockEnabled := True\<rparr>)"
    by simp
  show ?thesis
    using h1 h2 buildLayout_deterministic [OF h1 h2] by simp
qed

section \<open>The hook procedure, case by case\<close>

lemma keyevent_not_action:
  "nCode call \<noteq> HC_ACTION \<Longrightarrow>
   keyevent g_settings g_layout host g_state call = Inr (g_state, [], CallNextHookEx)"
  by (simp add: keyevent_def)

lemma keyevent_no_key_message:
  "wParam call \<noteq> WM_SYSKEYUP \<Longrightarrow> wParam call \<noteq> WM_KEYUP \<Longrightarrow>
   wParam call \<noteq> WM_SYSKEYDOWN \<Longrightarrow> wParam call \<noteq> WM_KEYDOWN \<Longrightarrow>
   keyevent g_settings g_layout host g_state call = Inr (g_state, [], CallNextHookEx)"
  by (simp add: keyevent_def)

lemma keyevent_injected:
  "flags (lParam call) AND LLKHF_INJECTED \<noteq> 0 \<Longrightarrow>
   keyevent g_settings g_layout host g_state call =
     Inr (g_state,
          (if nCode call = HC_ACTION
              \<and> (wParam call = WM_SYSKEYUP \<or> wParam call = WM_KEYUP
                 \<or> wParam call = WM_SYSKEYDOWN \<or> wParam call = WM_KEYDOWN)
           then [logKeyEvent g_settings g_state ''injected'' (lParam call)] else []),
          CallNextHookEx)"
  by (simp add: keyevent_def Let_def)

lemma keyevent_toggle:
  "hwKeyDown call \<Longrightarrow> shiftPressed g_state \<Longrightarrow> scanCode (lParam call) = 69 \<Longrightarrow>
   keyevent g_settings g_layout host g_state call =
     Inr (g_state\<lparr>bypassMode := \<not> bypassMode g_state\<rparr>,
          [trayicon_change_icon (\<not> bypassMode g_state), LogBypassMode (\<not> bypassMode g_state)],
          Swallow)"
  by (auto simp add: keyevent_def Let_def hwKeyDown_def toggleBypassMode_def)

lemma keyevent_bypass:
  "bypassMode g_state \<Longrightarrow> flags (lParam call) AND LLKHF_INJECTED = 0 \<Longrightarrow>
   \<not> (hwKeyDown call \<and> shiftPressed g_state \<and> scanCode (lParam call) = 69) \<Longrightarrow>
   keyevent g_settings g_layout host g_state call = Inr (g_state, [], CallNextHookEx)"
  by (auto simp add: keyevent_def Let_def hwKeyDown_def)

lemma keyevent_keyUp:
  "hwKeyUp call \<Longrightarrow> \<not> bypassMode g_state \<Longrightarrow>
   keyevent g_settings g_layout host g_state call =
     Inr (keyevent_keyUp g_settings g_state (lParam call))"
  by (auto simp add: keyevent_def Let_def hwKeyUp_def wm_defs)

lemma keyevent_keyDown:
  "hwKeyDown call \<Longrightarrow> \<not> bypassMode g_state \<Longrightarrow>
   \<not> (shiftPressed g_state \<and> scanCode (lParam call) = 69) \<Longrightarrow>
   keyevent g_settings g_layout host g_state call =
     keyevent_keyDown g_settings g_layout host g_state (lParam call)"
  by (auto simp add: keyevent_def Let_def hwKeyDown_def wm_defs)


lemma mapScanCodeToChar_cases:
  "i < MAPPING_LEN \<Longrightarrow> mapScanCodeToChar g_layout lv i = Inr (levels g_layout lv ! i)"
  "MAPPING_LEN \<le> i \<Longrightarrow> mapScanCodeToChar g_layout lv i = Inl OutOfBounds"
  by (simp_all add: mapScanCodeToChar_def)

lemma scanCode_beyond:
  "MAPPING_LEN \<le> unat (w :: DWORD) \<Longrightarrow> unat v < MAPPING_LEN \<Longrightarrow> w \<noteq> v"
  by auto

lemma scanCode_beyond_cases:
  assumes "MAPPING_LEN \<le> unat (w :: DWORD)"
  shows "w \<noteq> 13" "w \<noteq> 20" "w \<noteq> 27" "w \<noteq> 31" "w \<noteq> 41" "w \<noteq> 48" "w \<noteq> 69" "w \<noteq> 29"
  by (rule scanCode_beyond [OF assms], simp add: MAPPING_LEN_def)+

lemma handleLayer4_out_of_bounds:
  "MAPPING_LEN \<le> unat (scanCode keyInfo) \<Longrightarrow>
   handleLayer4SpecialCases g_layout host g_state keyInfo = Inl OutOfBounds"
  by (simp add: handleLayer4SpecialCases_def scanCode_beyond_cases)

lemma handleLayer4_in_bounds:
  "unat (scanCode keyInfo) < MAPPING_LEN \<Longrightarrow>
   \<not> isl (handleLayer4SpecialCases g_layout host g_state keyInfo)"
  by (simp add: handleLayer4SpecialCases_def Let_def)

lemma handleLayer4_lookup:
  "unat (scanCode keyInfo) < MAPPING_LEN \<Longrightarrow>
   scanCode keyInfo \<noteq> 13 \<Longrightarrow> scanCode keyInfo \<noteq> 27 \<Longrightarrow> scanCode keyInfo \<noteq> 41 \<Longrightarrow>
   handleLayer4SpecialCases g_layout host g_state keyInfo =
     Inr (if level4_specials g_layout ! unat (scanCode keyInfo) \<noteq> 0
          then Some [keybd_event (level4_specials g_layout ! unat (scanCode keyInfo)) 0 0x01 0]
          else None)"
  by (simp add: handleLayer4SpecialCases_def Let_def)
lemma keyDown_map_in_bounds:
  assumes "unat (scanCode keyInfo) < MAPPING_LEN"
  shows "\<not> isl (keyDown_map g_settings g_layout host g_state keyInfo lv)"
proof -
  obtain r4 where r4: "handleLayer4SpecialCases g_layout host g_state keyInfo = Inr r4"
    using handleLayer4_in_bounds [OF assms] by (metis sum.collapse(2))
  have m: "mapScanCodeToChar g_layout lv' (unat (scanCode keyInfo)) =
             Inr (levels g_layout lv' ! unat (scanCode keyInfo))" for lv'
    using assms by (simp add: mapScanCodeToChar_def)
  show ?thesis
    unfolding keyDown_map_def
    by (simp add: r4 m split: option.split)
qed

lemma keyDown_map_out_of_bounds:
  assumes a: "MAPPING_LEN \<le> unat (scanCode keyInfo)"
    and b: "lv = LEVEL_4 \<or> (\<not> (0x60 \<le> vkCode keyInfo \<and> vkCode keyInfo \<le> 0x6F)
                  \<and> \<not> (qwertzForShortcuts g_settings \<and> isSystemKeyPressed g_state))"
  shows "keyDown_map g_settings g_layout host g_state keyInfo lv = Inl OutOfBounds"
proof (cases "lv = LEVEL_4")
  case True
  then show ?thesis
    using a by (simp add: keyDown_map_def handleLayer4_out_of_bounds)
next
  case False
  with b have c: "\<not> (0x60 \<le> vkCode keyInfo \<and> vkCode keyInfo \<le> 0x6F)"
    "\<not> (qwertzForShortcuts g_settings \<and> isSystemKeyPressed g_state)" by auto
  have h2: "handleLayer2SpecialCases host g_state keyInfo = None"
    by (simp add: handleLayer2SpecialCases_def scanCode_beyond_cases [OF a])
  have h3: "handleLayer3SpecialCases g_layout host g_state keyInfo = None"
    by (simp add: handleLayer3SpecialCases_def scanCode_beyond_cases [OF a])
  have m: "mapScanCodeToChar g_layout lv' (unat (scanCode keyInfo)) = Inl OutOfBounds" for lv'
    using a by (simp add: mapScanCodeToChar_def)
  show ?thesis
    using False c by (simp add: keyDown_map_def h2 h3 m)
qed

lemma level_frame:
  "level g_settings (g_state\<lparr>level3modLeftAndNoOtherKeyPressed := a\<rparr>) = level g_settings g_state"
  "level g_settings (g_state\<lparr>level3modRightAndNoOtherKeyPressed := b\<rparr>) = level g_settings g_state"
  "level g_settings (g_state\<lparr>level4modLeftAndNoOtherKeyPressed := c\<rparr>) = level g_settings g_state"
  "level g_settings (g_state\<lparr>ctrlRightPressed := d\<rparr>) = level g_settings g_state"
  "level g_settings (g_state\<lparr>winRightPressed := e\<rparr>) = level g_settings g_state"
  by (simp_all add: level_def)

lemma keyDown_level_in_bounds:
  assumes "unat (scanCode keyInfo) < MAPPING_LEN"
  shows "\<not> isl (keyDown_level g_settings g_layout host g_state keyInfo)"
  using keyDown_map_in_bounds [OF assms]
  by (simp add: keyDown_level_def Let_def)

lemma keyevent_keyDown_in_bounds:
  assumes "unat (scanCode keyInfo) < MAPPING_LEN"
  shows "\<not> isl (keyevent_keyDown g_settings g_layout host g_state keyInfo)"
proof -
  have *: "\<not> isl (keyDown_level g_settings g_layout host s keyInfo)" for s
    by (rule keyDown_level_in_bounds [OF assms])
  have wrap: "isl (case r of Inl e \<Rightarrow> Inl e | Inr (s1, out, v) \<Rightarrow> Inr (f s1 out v)) = isl r"
    for r :: "error + State \<times> effect list \<times> verdict"
    and f :: "State \<Rightarrow> effect list \<Rightarrow> verdict \<Rightarrow> State \<times> effect list \<times> verdict"
    by (cases r) (auto split: prod.split)
  show ?thesis
    unfolding keyevent_keyDown_def Let_def wrap
    using * by simp
qed

lemma keyevent_in_bounds:
  assumes "unat (scanCode (lParam call)) < MAPPING_LEN"
  shows "\<exists>r. keyevent g_settings g_layout host g_state call = Inr r"
proof -
  have "\<not> isl (keyevent_keyDown g_settings g_layout host g_state (lParam call))"
    by (rule keyevent_keyDown_in_bounds [OF assms])
  then have "\<not> isl (keyevent g_settings g_layout host g_state call)"
    by (simp add: keyevent_def Let_def)
  then show ?thesis
    by (metis sum.collapse(2))
qed

lemma keyDown_level_out_of_bounds:
  assumes "MAPPING_LEN \<le> unat (scanCode keyInfo)"
    and "\<not> isShift keyInfo" and "\<not> isMod3 g_settings keyInfo" and "\<not> isMod4 g_settings keyInfo"
    and "level g_settings g_state = LEVEL_4
         \<or> (\<not> (0x60 \<le> vkCode keyInfo \<and> vkCode keyInfo \<le> 0x6F) \<and> \<not> qwertzForShortcuts g_settings)"
  shows "keyDown_level g_settings g_layout host g_state keyInfo = Inl OutOfBounds"
proof -
  have "keyDown_map g_settings g_layout host g_state keyInfo (level g_settings g_state)
          = Inl OutOfBounds"
    using assms(1,5) by (intro keyDown_map_out_of_bounds) auto
  then show ?thesis
    using assms(2-4) by (simp add: keyDown_level_def Let_def)
qed

lemma keyevent_keyDown_out_of_bounds:
  assumes "MAPPING_LEN \<le> unat (scanCode keyInfo)"
    and "vkCode keyInfo \<noteq> VK_LMENU" and "vkCode keyInfo \<noteq> VK_LWIN"
    and "\<not> isShift keyInfo" and "\<not> isMod3 g_settings keyInfo" and "\<not> isMod4 g_settings keyInfo"
    and "level g_settings g_state = LEVEL_4
         \<or> (\<not> (0x60 \<le> vkCode keyInfo \<and> vkCode keyInfo \<le> 0x6F) \<and> \<not> qwertzForShortcuts g_settings)"
  shows "keyevent_keyDown g_settings g_layout host g_state keyInfo = Inl OutOfBounds"
proof -
  have "keyDown_level g_settings g_layout host s keyInfo = Inl OutOfBounds"
    if "level g_settings s = level g_settings g_state" for s
    using assms(1,4-7) that by (intro keyDown_level_out_of_bounds) auto
  then show ?thesis
    using assms(2,3) scanCode_beyond_cases [OF assms(1)]
    by (simp add: keyevent_keyDown_def Let_def level_frame)
qed


section \<open>Claims about the emitter, the lookup and injected events\<close>

text \<open>
  C8.  \<open>sendChar\<close> sends the character as one Unicode input event, and nothing else,
  exactly when the reverse lookup \<open>VkKeyScanEx\<close> finds no combination (it returns -1),
  or shift lock, caps lock or level-4 lock is active, or the virtual key of the original
  event is one of the digit keys 0x30-0x39; in every other case it sends the chord of
  \<open>keybd_event\<close>s around the key found by the lookup and no Unicode event.  \<open>sendChar\<close>
  has no error result: a failed lookup always ends in the Unicode event.
\<close>

theorem sendChar_unicode_iff:
  "(sendChar host g_state key keyInfo = [SendInputUnicode key]) =
     (VkKeyScanEx host key = - 1 \<or> shiftLockActive g_state \<or> capsLockActive g_state
      \<or> level4LockActive g_state \<or> (0x30 \<le> vkCode keyInfo \<and> vkCode keyInfo \<le> 0x39))
   \<and> ((\<exists>c. SendInputUnicode c \<in> set (sendChar host g_state key keyInfo)) =
     (VkKeyScanEx host key = - 1 \<or> shiftLockActive g_state \<or> capsLockActive g_state
      \<or> level4LockActive g_state \<or> (0x30 \<le> vkCode keyInfo \<and> vkCode keyInfo \<le> 0x39)))
   \<and> ((keybd_event (ucast (scast (VkKeyScanEx host key) :: DWORD)) (ucast (scanCode keyInfo))
         (flags keyInfo) (dwExtraInfo keyInfo) \<in> set (sendChar host g_state key keyInfo)) =
     (\<not> (VkKeyScanEx host key = - 1 \<or> shiftLockActive g_state \<or> capsLockActive g_state
      \<or> level4LockActive g_state \<or> (0x30 \<le> vkCode keyInfo \<and> vkCode keyInfo \<le> 0x39))))"
  by (auto simp add: sendChar_def sendUnicodeChar_def Let_def)

theorem sendChar_unicode_iff_witness:
  "VkKeyScanEx noLayoutHost 0x00E4 = - 1
   \<and> sendChar noLayoutHost initialState 0x00E4 (lParam (keyDownCall 0x41 30)) = [SendInputUnicode 0x00E4]
   \<and> sendChar (noLayoutHost\<lparr>VkKeyScanEx := (\<lambda>key. 0x0141)\<rparr>) initialState 0x0041
        (lParam (keyDownCall 0x44 32)) \<noteq> [SendInputUnicode 0x0041]
   \<and> sendChar (noLayoutHost\<lparr>VkKeyScanEx := (\<lambda>key. 0x0141)\<rparr>) (initialState\<lparr>capsLockActive := True\<rparr>)
        0x0041 (lParam (keyDownCall 0x44 32)) = [SendInputUnicode 0x0041]"
proof -
  have a: "VkKeyScanEx noLayoutHost 0x00E4 = - 1"
    by (simp add: noLayoutHost_def)
  have b: "sendChar noLayoutHost initialState 0x00E4 (lParam (keyDownCall 0x41 30)) = [SendInputUnicode 0x00E4]"
    using a sendChar_unicode_iff [of noLayoutHost initialState "0x00E4" "lParam (keyDownCall 0x41 30)"]
    by simp
  have c: "sendChar (noLayoutHost\<lparr>VkKeyScanEx := (\<lambda>key. 0x0141)\<rparr>) initialState 0x0041
        (lParam (keyDownCall 0x44 32)) \<noteq> [SendInputUnicode 0x0041]"
    using sendChar_unicode_iff [of "noLayoutHost\<lparr>VkKeyScanEx := (\<lambda>key. 0x0141)\<rparr>" initialState
        "0x0041" "lParam (keyDownCall 0x44 32)"]
    by (simp add: initialState_def keyDownCall_def)
  have d: "sendChar (noLayoutHost\<lparr>VkKeyScanEx := (\<lambda>key. 0x0141)\<rparr>) (initialState\<lparr>capsLockActive := True\<rparr>)
        0x0041 (lParam (keyDownCall 0x44 32)) = [SendInputUnicode 0x0041]"
    using sendChar_unicode_iff [of "noLayoutHost\<lparr>VkKeyScanEx := (\<lambda>key. 0x0141)\<rparr>"
        "initialState\<lparr>capsLockActive := True\<rparr>" "0x0041" "lParam (keyDownCall 0x44 32)"]
    by simp
  from a b c d show ?thesis by simp
qed


text \<open>
  C10.  The lookups index their array of \<open>MAPPING_LEN\<close> = 103 entries at the scan code
  of the event without a check.  For an index below 103 \<open>mapScanCodeToChar\<close> returns the
  entry of the table and the level-4 lookup returns the key of its table (0: no mapping),
  and the hook procedure then always returns a result.  For an index of 103 or more both
  lookups read outside the array, and so does the hook procedure for a key-down that
  reaches a lookup: one that is not injected, arrives while bypass mode is off, is not a
  shift, level-3, level-4, left Alt or left Win key, and is either at level 4 or neither
  a numeric-keypad key nor kept from the lookup by \<open>qwertzForShortcuts\<close>.
\<close>

theorem lookup_in_bounds_only_below_MAPPING_LEN:
  "(i < MAPPING_LEN \<longrightarrow> mapScanCodeToChar g_layout lv i = Inr (levels g_layout lv ! i))
   \<and> (MAPPING_LEN \<le> i \<longrightarrow> mapScanCodeToChar g_layout lv i = Inl OutOfBounds)
   \<and> (unat (scanCode keyInfo) < MAPPING_LEN \<and> scanCode keyInfo \<noteq> 13
        \<and> scanCode keyInfo \<noteq> 27 \<and> scanCode keyInfo \<noteq> 41 \<longrightarrow>
      handleLayer4SpecialCases g_layout host g_state keyInfo =
        Inr (if level4_specials g_layout ! unat (scanCode keyInfo) \<noteq> 0
             then Some [keybd_event (level4_specials g_layout ! unat (scanCode keyInfo)) 0 0x01 0]
             else None))
   \<and> (MAPPING_LEN \<le> unat (scanCode keyInfo) \<longrightarrow>
      handleLayer4SpecialCases g_layout host g_state keyInfo = Inl OutOfBounds)
   \<and> (unat (scanCode (lParam call)) < MAPPING_LEN \<longrightarrow>
      (\<exists>r. keyevent g_settings g_layout host g_state call = Inr r))
   \<and> (hwKeyDown call \<and> \<not> bypassMode g_state
        \<and> MAPPING_LEN \<le> unat (scanCode (lParam call))
        \<and> vkCode (lParam call) \<noteq> VK_LMENU \<and> vkCode (lParam call) \<noteq> VK_LWIN
        \<and> \<not> isShift (lParam call) \<and> \<not> isMod3 g_settings (lParam call)
        \<and> \<not> isMod4 g_settings (lParam call)
        \<and> (level g_settings g_state = LEVEL_4
           \<or> (\<not> (0x60 \<le> vkCode (lParam call) \<and> vkCode (lParam call) \<le> 0x6F)
              \<and> \<not> qwertzForShortcuts g_settings)) \<longrightarrow>
      keyevent g_settings g_layout host g_state call = Inl OutOfBounds)"
proof -
  have "keyevent g_settings g_layout host g_state call = Inl OutOfBounds"
    if h: "hwKeyDown call" "\<not> bypassMode g_state"
      "MAPPING_LEN \<le> unat (scanCode (lParam call))"
      "vkCode (lParam call) \<noteq> VK_LMENU" "vkCode (lParam call) \<noteq> VK_LWIN"
      "\<not> isShift (lParam call)" "\<not> isMod3 g_settings (lParam call)"
      "\<not> isMod4 g_settings (lParam call)"
      "level g_settings g_state = LEVEL_4
         \<or> (\<not> (0x60 \<le> vkCode (lParam call) \<and> vkCode (lParam call) \<le> 0x6F)
            \<and> \<not> qwertzForShortcuts g_settings)"
  proof -
    have "scanCode (lParam call) \<noteq> 69"
      by (rule scanCode_beyond_cases [OF h(3)])
    then have "keyevent g_settings g_layout host g_state call =
        keyevent_keyDown g_settings g_layout host g_state (lParam call)"
      using h(1,2) by (intro keyevent_keyDown) auto
    then show ?thesis
      using keyevent_keyDown_out_of_bounds [OF h(3-9)] by simp
  qed
  then show ?thesis
    using keyevent_in_bounds [of call g_settings g_layout host g_state]
      handleLayer4_lookup [of keyInfo g_layout host g_state]
    by (simp add: mapScanCodeToChar_cases handleLayer4_out_of_bounds)
qed

theorem lookup_in_bounds_only_below_MAPPING_LEN_witness:
  "hwKeyDown (keyDownCall VK_LCONTROL 541)
   \<and> MAPPING_LEN \<le> unat (scanCode (lParam (keyDownCall VK_LCONTROL 541)))
   \<and> keyevent (sanitize defaultSettings) (buildLayout (sanitize defaultSettings)) noLayoutHost
        initialState (keyDownCall VK_LCONTROL 541) = Inl OutOfBounds
   \<and> mapScanCodeToChar (buildLayout (sanitize defaultSettings)) LEVEL_1 102 =
        Inr (levels (buildLayout (sanitize defaultSettings)) LEVEL_1 ! 102)
   \<and> mapScanCodeToChar (buildLayout (sanitize defaultSettings)) LEVEL_1 103 = Inl OutOfBounds"
proof -
  note t = lookup_in_bounds_only_below_MAPPING_LEN [of _ "buildLayout (sanitize defaultSettings)"
      LEVEL_1 "lParam (keyDownCall VK_LCONTROL 541)" noLayoutHost initialState
      "keyDownCall VK_LCONTROL 541" "sanitize defaultSettings"]
  have a: "hwKeyDown (keyDownCall VK_LCONTROL 541)"
    by (simp add: hwKeyDown_def keyDownCall_def)
  have b: "MAPPING_LEN \<le> unat (scanCode (lParam (keyDownCall VK_LCONTROL 541)))"
    by (simp add: keyDownCall_def MAPPING_LEN_def)
  have c: "\<not> bypassMode initialState"
    "vkCode (lParam (keyDownCall VK_LCONTROL 541)) \<noteq> VK_LMENU"
    "vkCode (lParam (keyDownCall VK_LCONTROL 541)) \<noteq> VK_LWIN"
    "\<not> isShift (lParam (keyDownCall VK_LCONTROL 541))"
    "\<not> isMod3 (sanitize defaultSettings) (lParam (keyDownCall VK_LCONTROL 541))"
    "\<not> isMod4 (sanitize defaultSettings) (lParam (keyDownCall VK_LCONTROL 541))"
    "\<not> (0x60 \<le> vkCode (lParam (keyDownCall VK_LCONTROL 541))
        \<and> vkCode (lParam (keyDownCall VK_LCONTROL 541)) \<le> 0x6F)"
    "\<not> qwertzForShortcuts (sanitize defaultSettings)"
    by (simp_all add: initialState_def keyDownCall_def vk_defs isShift_def isMod3_def isMod4_def
          sanitize_def defaultSettings_def scancode_defs Let_def)
  have d: "keyevent (sanitize defaultSettings) (buildLayout (sanitize defaultSettings)) noLayoutHost
        initialState (keyDownCall VK_LCONTROL 541) = Inl OutOfBounds"
    using t [of 0] a b c by blast
  have e: "mapScanCodeToChar (buildLayout (sanitize defaultSettings)) LEVEL_1 102 =
        Inr (levels (buildLayout (sanitize defaultSettings)) LEVEL_1 ! 102)"
    using t [of 102] by (simp add: MAPPING_LEN_def)
  have f: "mapScanCodeToChar (buildLayout (sanitize defaultSettings)) LEVEL_1 103 = Inl OutOfBounds"
    using t [of 103] by (simp add: MAPPING_LEN_def)
  from a b d e f show ?thesis by simp
qed


text \<open>
  C4.  A call whose event carries the injected flag is passed on to the next hook with
  the state unchanged and nothing sent, whatever the bypass flag, the modifier state and
  the settings are; for a key event (code \<open>HC_ACTION\<close> and one of the four key messages)
  the only thing the hook procedure does before is to write the log line "injected".
\<close>

theorem injected_passed_through:
  assumes "flags (lParam call) AND LLKHF_INJECTED \<noteq> 0"
  shows "keyevent g_settings g_layout host g_state call =
     Inr (g_state,
          (if nCode call = HC_ACTION
              \<and> (wParam call = WM_SYSKEYUP \<or> wParam call = WM_KEYUP
                 \<or> wParam call = WM_SYSKEYDOWN \<or> wParam call = WM_KEYDOWN)
           then [logKeyEvent g_settings g_state ''injected'' (lParam call)] else []),
          CallNextHookEx)"
  using assms by (simp add: keyevent_def Let_def)

theorem injected_passed_through_witness:
  "flags (lParam \<lparr>nCode = HC_ACTION, wParam = WM_KEYDOWN,
      lParam = \<lparr>vkCode = 0x41, scanCode = 30, flags = LLKHF_INJECTED, time = 0, dwExtraInfo = 0\<rparr>\<rparr>)
     AND LLKHF_INJECTED \<noteq> 0
   \<and> keyevent (sanitize defaultSettings) (buildLayout (sanitize defaultSettings)) noLayoutHost
       (initialState\<lparr>shiftPressed := True\<rparr>)
       \<lparr>nCode = HC_ACTION, wParam = WM_KEYDOWN,
        lParam = \<lparr>vkCode = 0x41, scanCode = 30, flags = LLKHF_INJECTED, time = 0, dwExtraInfo = 0\<rparr>\<rparr>
     = Inr (initialState\<lparr>shiftPressed := True\<rparr>,
            [LogKeyEvent ''injected''
               \<lparr>vkCode = 0x41, scanCode = 30, flags = LLKHF_INJECTED, time = 0, dwExtraInfo = 0\<rparr>
               ''(A-Z)'' [] []],
            CallNextHookEx)"
proof -
  have h: "flags (lParam \<lparr>nCode = HC_ACTION, wParam = WM_KEYDOWN,
      lParam = \<lparr>vkCode = 0x41, scanCode = 30, flags = LLKHF_INJECTED, time = 0, dwExtraInfo = 0\<rparr>\<rparr>)
     AND LLKHF_INJECTED \<noteq> 0"
    by (simp add: LLKHF_INJECTED_def)
  show ?thesis
    using h injected_passed_through [OF h, of "sanitize defaultSettings"
        "buildLayout (sanitize defaultSettings)" noLayoutHost "initialState\<lparr>shiftPressed := True\<rparr>"]
    by (simp add: logKeyEvent_def keyNameFor_def vk_defs initialState_def sanitize_def
          defaultSettings_def Let_def)
qed

section \<open>Sequences of events\<close>

lemma run_append:
  "run S L H st (xs @ ys) =
     (case run S L H st xs of
        Inl e \<Rightarrow> Inl e
      | Inr (s1, o1) \<Rightarrow>
          (case run S L H s1 ys of Inl e \<Rightarrow> Inl e | Inr (s2, o2) \<Rightarrow> Inr (s2, o1 @ o2)))"
  by (induction xs arbitrary: st) (auto split: sum.splits prod.splits)

lemma run_bypass_others:
  assumes "bypassMode st" and "shiftPressed st"
    and "\<forall>call \<in> set others. flags (lParam call) AND LLKHF_INJECTED = 0
            \<and> \<not> (hwKeyDown call \<and> scanCode (lParam call) = 69)"
  shows "run S L H st others = Inr (st, [])"
  using assms(3)
proof (induction others)
  case Nil
  then show ?case by simp
next
  case (Cons call others)
  then have "keyevent S L H st call = Inr (st, [], CallNextHookEx)"
    using assms(1) by (intro keyevent_bypass) auto
  with Cons show ?case by simp
qed

text \<open>
  C5.  A key-down of the pause scan code (69) that is not injected, arriving while the
  state records a shift key as held (\<open>shiftPressed\<close>), flips the bypass flag and is
  swallowed, whatever the bypass flag was.  While the bypass flag is set every other
  event that is not injected (a shift release and a letter key-down among them) is passed
  on with the state unchanged and nothing emitted (injected events are the subject of
  C4).  Starting with bypass off, pause, any such other events and pause again end in the
  state the sequence started from: remapping is restored.
\<close>

theorem bypass_toggle_and_passthrough:
  assumes pause: "hwKeyDown pause" "scanCode (lParam pause) = 69"
    and shift: "shiftPressed g_state"
    and others: "\<forall>call \<in> set others. flags (lParam call) AND LLKHF_INJECTED = 0
            \<and> \<not> (hwKeyDown call \<and> scanCode (lParam call) = 69)"
  shows "keyevent g_settings g_layout host g_state pause =
           Inr (g_state\<lparr>bypassMode := \<not> bypassMode g_state\<rparr>,
                [trayicon_change_icon (\<not> bypassMode g_state), LogBypassMode (\<not> bypassMode g_state)],
                Swallow)
       \<and> (bypassMode g_state \<longrightarrow>
            (\<forall>call \<in> set others.
               keyevent g_settings g_layout host g_state call = Inr (g_state, [], CallNextHookEx)))
       \<and> (\<not> bypassMode g_state \<longrightarrow>
            run g_settings g_layout host g_state (pause # others) =
              Inr (g_state\<lparr>bypassMode := True\<rparr>, [trayicon_change_icon True, LogBypassMode True])
          \<and> run g_settings g_layout host g_state (pause # others @ [pause]) =
              Inr (g_state,
                   [trayicon_change_icon True, LogBypassMode True,
                    trayicon_change_icon False, LogBypassMode False]))"
proof -
  have t: "keyevent g_settings g_layout host s pause =
           Inr (s\<lparr>bypassMode := \<not> bypassMode s\<rparr>,
                [trayicon_change_icon (\<not> bypassMode s), LogBypassMode (\<not> bypassMode s)], Swallow)"
    if "shiftPressed s" for s
    using pause that by (intro keyevent_toggle)
  have b: "keyevent g_settings g_layout host g_state call = Inr (g_state, [], CallNextHookEx)"
    if "bypassMode g_state" "call \<in> set others" for call
    using that others by (intro keyevent_bypass) auto
  have r: "run g_settings g_layout host (g_state\<lparr>bypassMode := True\<rparr>) others =
             Inr (g_state\<lparr>bypassMode := True\<rparr>, [])"
    using shift others by (intro run_bypass_others) auto
  have r1: "run g_settings g_layout host g_state (pause # others) =
              Inr (g_state\<lparr>bypassMode := True\<rparr>, [trayicon_change_icon True, LogBypassMode True])"
    if "\<not> bypassMode g_state"
    using that t [OF shift] r by simp
  have r2: "run g_settings g_layout host g_state (pause # others @ [pause]) =
              Inr (g_state,
                   [trayicon_change_icon True, LogBypassMode True,
                    trayicon_change_icon False, LogBypassMode False])"
    if nb: "\<not> bypassMode g_state"
  proof -
    have "g_state\<lparr>bypassMode := False\<rparr> = g_state"
      using nb by simp
    then show ?thesis
      using nb t [OF shift] r t [of "g_state\<lparr>bypassMode := True\<rparr>"] shift
      by (simp add: run_append)
  qed
  show ?thesis
    using t [OF shift] b r1 r2 by blast
qed


theorem bypass_toggle_and_passthrough_witness:
  "hwKeyDown (keyDownCall 0x13 69) \<and> scanCode (lParam (keyDownCall 0x13 69)) = 69
   \<and> shiftPressed (initialState\<lparr>shiftPressed := True, shiftLeftPressed := True\<rparr>)
   \<and> \<not> bypassMode (initialState\<lparr>shiftPressed := True, shiftLeftPressed := True\<rparr>)
   \<and> run (sanitize defaultSettings) (buildLayout (sanitize defaultSettings)) noLayoutHost
        (initialState\<lparr>shiftPressed := True, shiftLeftPressed := True\<rparr>)
        (keyDownCall 0x13 69 # [keyUpCall VK_LSHIFT 42, keyDownCall 0x41 30]) =
      Inr (initialState\<lparr>shiftPressed := True, shiftLeftPressed := True, bypassMode := True\<rparr>,
           [trayicon_change_icon True, LogBypassMode True])
   \<and> run (sanitize defaultSettings) (buildLayout (sanitize defaultSettings)) noLayoutHost
        (initialState\<lparr>shiftPressed := True, shiftLeftPressed := True\<rparr>)
        (keyDownCall 0x13 69 # [keyUpCall VK_LSHIFT 42, keyDownCall 0x41 30] @ [keyDownCall 0x13 69]) =
      Inr (initialState\<lparr>shiftPressed := True, shiftLeftPressed := True\<rparr>,
           [trayicon_change_icon True, LogBypassMode True,
            trayicon_change_icon False, LogBypassMode False])"
proof -
  have p: "hwKeyDown (keyDownCall 0x13 69)" "scanCode (lParam (keyDownCall 0x13 69)) = 69"
    by (simp_all add: hwKeyDown_def keyDownCall_def)
  have s: "shiftPressed (initialState\<lparr>shiftPressed := True, shiftLeftPressed := True\<rparr>)"
    by simp
  have nb: "\<not> bypassMode (initialState\<lparr>shiftPressed := True, shiftLeftPressed := True\<rparr>)"
    by (simp add: initialState_def)
  have o: "\<forall>call \<in> set [keyUpCall VK_LSHIFT 42, keyDownCall 0x41 30].
             flags (lParam call) AND LLKHF_INJECTED = 0
             \<and> \<not> (hwKeyDown call \<and> scanCode (lParam call) = 69)"
    by (simp add: keyUpCall_def keyDownCall_def wm_defs hwKeyDown_def)
  show ?thesis
    using p s nb
      bypass_toggle_and_passthrough [OF p s o, of "sanitize defaultSettings"
        "buildLayout (sanitize defaultSettings)" noLayoutHost]
    by (simp del: run.simps)
qed

section \<open>The modifier and lock state machine\<close>

lemma rs_Inl: "results_satisfy Q (Inl e)"
  by (simp add: results_satisfy_def)

lemma rs_Inr: "Q s \<Longrightarrow> results_satisfy Q (Inr (s, out, v))"
  by (simp add: results_satisfy_def)

lemma rs_if:
  "(c \<Longrightarrow> results_satisfy Q a) \<Longrightarrow> (\<not> c \<Longrightarrow> results_satisfy Q b) \<Longrightarrow>
   results_satisfy Q (if c then a else b)"
  by simp

lemma rs_option:
  "results_satisfy Q n \<Longrightarrow> (\<And>x. results_satisfy Q (f x)) \<Longrightarrow>
   results_satisfy Q (case_option n f x)"
  by (cases x) simp_all

lemma rs_sum:
  "(\<And>e. results_satisfy Q (f e)) \<Longrightarrow> (\<And>y. results_satisfy Q (g y)) \<Longrightarrow>
   results_satisfy Q (case_sum f g x)"
  by (cases x) simp_all

lemma rs_wrap:
  "results_satisfy Q r \<Longrightarrow>
   results_satisfy Q (case r of Inl e \<Rightarrow> Inl e | Inr (s1, out, v) \<Rightarrow> Inr (s1, g out, v))"
  by (cases r) (auto simp add: results_satisfy_def)

lemma rs_D: "results_satisfy Q r \<Longrightarrow> r = Inr (s, out, v) \<Longrightarrow> Q s"
  by (simp add: results_satisfy_def)

lemma keyDown_map_state:
  "results_satisfy (\<lambda>s. s = st) (keyDown_map S L H st k lv)"
  unfolding keyDown_map_def
  by (intro rs_option rs_sum rs_if rs_Inl rs_Inr refl)

lemma rs_mono:
  "results_satisfy Q r \<Longrightarrow> (\<And>s. Q s \<Longrightarrow> Q' s) \<Longrightarrow> results_satisfy Q' r"
  by (cases r) (auto simp add: results_satisfy_def)

lemma keyDown_level_frame:
  "results_satisfy
     (\<lambda>s. bypassMode s = bypassMode st \<and> shiftLockActive s = shiftLockActive st
          \<and> capsLockActive s = capsLockActive st
          \<and> (level3modRightAndNoOtherKeyPressed s \<longrightarrow>
               level3modRightAndNoOtherKeyPressed st \<or> scanCode k = scanCodeMod3R S))
     (keyDown_level S L H st k)"
  unfolding keyDown_level_def Let_def
  by (intro rs_if rs_Inr rs_mono [OF keyDown_map_state]) simp_all

lemma keyevent_keyDown_frame:
  "results_satisfy
     (\<lambda>s. bypassMode s = bypassMode st \<and> shiftLockActive s = shiftLockActive st
          \<and> capsLockActive s = capsLockActive st
          \<and> (level3modRightAndNoOtherKeyPressed s \<longrightarrow> scanCode k = scanCodeMod3R S))
     (keyevent_keyDown S L H st k)"
  unfolding keyevent_keyDown_def Let_def
  by (intro rs_wrap rs_if rs_Inr rs_mono [OF keyDown_level_frame]) simp_all

lemma keyevent_cases [case_names skip toggle up down]:
  obtains
    out where "keyevent S L H st call = Inr (st, out, CallNextHookEx)"
      "out = [] \<or> out = [logKeyEvent S st ''injected'' (lParam call)]"
      "\<not> (hwKeyUp call \<and> \<not> bypassMode st)"
      "\<not> (hwKeyDown call \<and> \<not> bypassMode st)
       \<or> (hwKeyDown call \<and> shiftPressed st \<and> scanCode (lParam call) = 69)"
  | "hwKeyDown call" "shiftPressed st" "scanCode (lParam call) = 69"
      "keyevent S L H st call =
         Inr (st\<lparr>bypassMode := \<not> bypassMode st\<rparr>,
              [trayicon_change_icon (\<not> bypassMode st), LogBypassMode (\<not> bypassMode st)], Swallow)"
  | "hwKeyUp call" "\<not> bypassMode st"
      "keyevent S L H st call = Inr (keyevent_keyUp S st (lParam call))"
  | "hwKeyDown call" "\<not> bypassMode st" "\<not> (shiftPressed st \<and> scanCode (lParam call) = 69)"
      "keyevent S L H st call = keyevent_keyDown S L H st (lParam call)"
proof -
  consider (a) "nCode call \<noteq> HC_ACTION"
    | (b) "nCode call = HC_ACTION" "wParam call \<noteq> WM_SYSKEYUP" "wParam call \<noteq> WM_KEYUP"
          "wParam call \<noteq> WM_SYSKEYDOWN" "wParam call \<noteq> WM_KEYDOWN"
    | (c) "flags (lParam call) AND LLKHF_INJECTED \<noteq> 0"
    | (d) "hwKeyDown call" "shiftPressed st \<and> scanCode (lParam call) = 69"
    | (e) "hwKeyDown call" "\<not> (shiftPressed st \<and> scanCode (lParam call) = 69)" "bypassMode st"
    | (f) "hwKeyDown call" "\<not> (shiftPressed st \<and> scanCode (lParam call) = 69)" "\<not> bypassMode st"
    | (g) "hwKeyUp call" "bypassMode st"
    | (h) "hwKeyUp call" "\<not> bypassMode st"
    unfolding hwKeyDown_def hwKeyUp_def by blast
  then show ?thesis
  proof cases
    case a
    then show ?thesis
      by (intro that(1) [of "[]"]) (simp_all add: keyevent_not_action hwKeyUp_def hwKeyDown_def)
  next
    case b
    then show ?thesis
      by (intro that(1) [of "[]"]) (simp_all add: keyevent_no_key_message hwKeyUp_def hwKeyDown_def)
  next
    case c
    then show ?thesis
      by (intro that(1) [of "if nCode call = HC_ACTION
              \<and> (wParam call = WM_SYSKEYUP \<or> wParam call = WM_KEYUP
                 \<or> wParam call = WM_SYSKEYDOWN \<or> wParam call = WM_KEYDOWN)
           then [logKeyEvent S st ''injected'' (lParam call)] else []"])
         (simp_all add: keyevent_injected hwKeyUp_def hwKeyDown_def)
  next
    case d
    then show ?thesis
      by (intro that(2)) (simp_all add: keyevent_toggle)
  next
    case e
    then have "keyevent S L H st call = Inr (st, [], CallNextHookEx)"
      by (intro keyevent_bypass) (auto simp add: hwKeyDown_def)
    with e show ?thesis
      by (intro that(1) [of "[]"]) (auto simp add: hwKeyUp_def hwKeyDown_def wm_defs)
  next
    case f
    then show ?thesis
      by (intro that(4)) (simp_all add: keyevent_keyDown)
  next
    case g
    then have "keyevent S L H st call = Inr (st, [], CallNextHookEx)"
      by (intro keyevent_bypass) (auto simp add: hwKeyUp_def hwKeyDown_def wm_defs)
    with g show ?thesis
      by (intro that(1) [of "[]"]) simp_all
  next
    case h
    then show ?thesis
      by (intro that(3)) (simp_all add: keyevent_keyUp)
  qed
qed

lemma toggle_locks:
  "shiftLockActive (fst (toggleShiftOrCapsLock S st)) =
     (if shiftLockEnabled S then \<not> shiftLockActive st else shiftLockActive st)"
  "capsLockActive (fst (toggleShiftOrCapsLock S st)) =
     (if \<not> shiftLockEnabled S \<and> capsLockEnabled S then \<not> capsLockActive st else capsLockActive st)"
  by (simp_all add: toggleShiftOrCapsLock_def Let_def)

lemma keyUp_shift_locks:
  "shiftLockActive (fst (keyUp_shift S st k)) =
     (if (if vkCode k = VK_RSHIFT then shiftLeftPressed st else shiftRightPressed st)
         \<and> shiftLockEnabled S
      then \<not> shiftLockActive st else shiftLockActive st)"
  "capsLockActive (fst (keyUp_shift S st k)) =
     (if (if vkCode k = VK_RSHIFT then shiftLeftPressed st else shiftRightPressed st)
         \<and> \<not> shiftLockEnabled S \<and> capsLockEnabled S
      then \<not> capsLockActive st else capsLockActive st)"
  by (simp_all add: keyUp_shift_def toggleShiftOrCapsLock_def Let_def)

lemma keyUp_other_locks:
  "shiftLockActive (fst (keyUp_mod3 S st k)) = shiftLockActive st"
  "capsLockActive (fst (keyUp_mod3 S st k)) = capsLockActive st"
  "shiftLockActive (fst (keyUp_mod4 S st k)) = shiftLockActive st"
  "capsLockActive (fst (keyUp_mod4 S st k)) = capsLockActive st"
  "shiftLockActive (fst (keyUp_system S st k)) = shiftLockActive st"
  "capsLockActive (fst (keyUp_system S st k)) = capsLockActive st"
  by (simp_all add: keyUp_mod3_def keyUp_mod4_def keyUp_system_def Let_def)

lemma keyevent_keyUp_locks:
  "shiftLockActive (fst (keyevent_keyUp S st k)) =
     (if isShift k \<and> (if vkCode k = VK_RSHIFT then shiftLeftPressed st else shiftRightPressed st)
         \<and> shiftLockEnabled S
      then \<not> shiftLockActive st else shiftLockActive st)"
  "capsLockActive (fst (keyevent_keyUp S st k)) =
     (if isShift k \<and> (if vkCode k = VK_RSHIFT then shiftLeftPressed st else shiftRightPressed st)
         \<and> \<not> shiftLockEnabled S \<and> capsLockEnabled S
      then \<not> capsLockActive st else capsLockActive st)"
  by (simp_all add: keyevent_keyUp_def Let_def keyUp_shift_locks keyUp_other_locks)

lemma keyevent_locks:
  assumes "keyevent S L H st call = Inr (s', out, v)"
  shows "shiftLockActive s' =
           (if hwKeyUp call \<and> \<not> bypassMode st \<and> isShift (lParam call)
               \<and> otherShiftHeld st (lParam call) \<and> shiftLockEnabled S
            then \<not> shiftLockActive st else shiftLockActive st)
       \<and> capsLockActive s' =
           (if hwKeyUp call \<and> \<not> bypassMode st \<and> isShift (lParam call)
               \<and> otherShiftHeld st (lParam call) \<and> \<not> shiftLockEnabled S \<and> capsLockEnabled S
            then \<not> capsLockActive st else capsLockActive st)"
proof -
  have ud: "\<not> (hwKeyUp call \<and> hwKeyDown call)"
    by (auto simp add: hwKeyUp_def hwKeyDown_def wm_defs)
  show ?thesis
  proof (cases rule: keyevent_cases [of S L H st call])
    case (skip out0)
    with assms show ?thesis by auto
  next
    case toggle
    with assms ud show ?thesis by auto
  next
    case up
    with assms have "s' = fst (keyevent_keyUp S st (lParam call))" by simp
    then show ?thesis
      using up(1,2) by (simp add: keyevent_keyUp_locks otherShiftHeld_def)
  next
    case down
    with assms have "keyevent_keyDown S L H st (lParam call) = Inr (s', out, v)" by simp
    from rs_D [OF keyevent_keyDown_frame this] show ?thesis
      using down(1) ud by auto
  qed
qed

lemma locks_invariant_step:
  assumes "keyevent S L H st call = Inr (s', out, v)"
    and "(shiftLockEnabled S \<and> \<not> capsLockActive st) \<or> (\<not> shiftLockEnabled S \<and> \<not> shiftLockActive st)"
  shows "(shiftLockEnabled S \<and> \<not> capsLockActive s') \<or> (\<not> shiftLockEnabled S \<and> \<not> shiftLockActive s')"
  using keyevent_locks [OF assms(1)] assms(2) by auto

lemma locks_invariant_run:
  assumes "run S L H st calls = Inr (s', out)"
    and "(shiftLockEnabled S \<and> \<not> capsLockActive st) \<or> (\<not> shiftLockEnabled S \<and> \<not> shiftLockActive st)"
  shows "(shiftLockEnabled S \<and> \<not> capsLockActive s') \<or> (\<not> shiftLockEnabled S \<and> \<not> shiftLockActive s')"
  using assms
proof (induction calls arbitrary: st out)
  case Nil
  then show ?case by simp
next
  case (Cons call calls)
  from Cons.prems(1) obtain s1 o1 v1 o2 where
    k: "keyevent S L H st call = Inr (s1, o1, v1)" and r: "run S L H s1 calls = Inr (s', o2)"
    by (auto split: sum.splits prod.splits)
  from locks_invariant_step [OF k Cons.prems(2)] Cons.IH [OF r] show ?case by blast
qed

lemma keyevent_keyDown_shift:
  assumes "isShift k"
  shows "keyevent_keyDown S L H st k =
     Inr ((if vkCode k = VK_RSHIFT
           then st\<lparr>level3modLeftAndNoOtherKeyPressed := False,
                   level3modRightAndNoOtherKeyPressed := False,
                   level4modLeftAndNoOtherKeyPressed := False,
                   shiftPressed := True, shiftRightPressed := True\<rparr>
           else st\<lparr>level3modLeftAndNoOtherKeyPressed := False,
                   level3modRightAndNoOtherKeyPressed := False,
                   level4modLeftAndNoOtherKeyPressed := False,
                   shiftPressed := True, shiftLeftPressed := True\<rparr>),
          [logKeyEvent S st (CHR 0x0A # ''key down'') k,
           keybd_event (ucast (if vkCode k = VK_RSHIFT then VK_RSHIFT else VK_LSHIFT)) 0 0 0],
          Swallow)"
proof -
  have vk: "vkCode k \<noteq> VK_LCONTROL" "vkCode k \<noteq> VK_RCONTROL" "vkCode k \<noteq> VK_LMENU"
    "vkCode k \<noteq> VK_LWIN" "vkCode k \<noteq> VK_RWIN"
    using assms by (auto simp add: isShift_def vk_defs)
  show ?thesis
    using assms by (simp add: keyevent_keyDown_def keyDown_level_def Let_def vk)
qed

lemma shift_gesture_once:
  assumes "hwKeyDown down" and "hwKeyUp up" and "isShift (lParam down)"
    and "vkCode (lParam up) = vkCode (lParam down)" and "scanCode (lParam down) \<noteq> 69"
    and "\<not> bypassMode st" and "otherShiftHeld st (lParam down)"
  shows "\<exists>s1 o1. run S L H st [down, up] = Inr (s1, o1)
           \<and> \<not> bypassMode s1 \<and> otherShiftHeld s1 (lParam down)
           \<and> shiftLockActive s1 = (if shiftLockEnabled S then \<not> shiftLockActive st else shiftLockActive st)
           \<and> capsLockActive s1 =
               (if \<not> shiftLockEnabled S \<and> capsLockEnabled S then \<not> capsLockActive st
                else capsLockActive st)"
proof -
  define sd where "sd = (if vkCode (lParam down) = VK_RSHIFT
           then st\<lparr>level3modLeftAndNoOtherKeyPressed := False,
                   level3modRightAndNoOtherKeyPressed := False,
                   level4modLeftAndNoOtherKeyPressed := False,
                   shiftPressed := True, shiftRightPressed := True\<rparr>
           else st\<lparr>level3modLeftAndNoOtherKeyPressed := False,
                   level3modRightAndNoOtherKeyPressed := False,
                   level4modLeftAndNoOtherKeyPressed := False,
                   shiftPressed := True, shiftLeftPressed := True\<rparr>)"
  have sd: "\<not> bypassMode sd" "otherShiftHeld sd (lParam down)"
    "shiftLockActive sd = shiftLockActive st" "capsLockActive sd = capsLockActive st"
    using assms(6,7) by (simp_all add: sd_def otherShiftHeld_def)
  have up_shift: "isShift (lParam up)" "otherShiftHeld s (lParam up) = otherShiftHeld s (lParam down)" for s
    using assms(3,4) by (simp_all add: isShift_def otherShiftHeld_def)
  have "keyevent S L H st down = keyevent_keyDown S L H st (lParam down)"
    using assms(1,5,6) by (intro keyevent_keyDown) auto
  then have kd: "\<exists>od. keyevent S L H st down = Inr (sd, od, Swallow)"
    using keyevent_keyDown_shift [OF assms(3), of S L H st] by (simp add: sd_def)
  have ku: "keyevent S L H sd up = Inr (keyevent_keyUp S sd (lParam up))"
    using assms(2) sd(1) by (intro keyevent_keyUp)
  define s1 where "s1 = fst (keyevent_keyUp S sd (lParam up))"
  have s1: "shiftLockActive s1 = (if shiftLockEnabled S then \<not> shiftLockActive st else shiftLockActive st)"
    "capsLockActive s1 =
       (if \<not> shiftLockEnabled S \<and> capsLockEnabled S then \<not> capsLockActive st else capsLockActive st)"
    using sd up_shift(1) up_shift(2) [of sd]
    by (simp_all add: s1_def keyevent_keyUp_locks otherShiftHeld_def)
  have s1': "\<not> bypassMode s1" "otherShiftHeld s1 (lParam down)"
    using sd(1,2) up_shift(1) assms(4)
    by (simp_all add: s1_def keyevent_keyUp_def keyUp_shift_def toggleShiftOrCapsLock_def
          Let_def otherShiftHeld_def)
  obtain o1 v1 where k1: "keyevent_keyUp S sd (lParam up) = (s1, o1, v1)"
    by (metis s1_def prod.collapse)
  from kd obtain od where "keyevent S L H st down = Inr (sd, od, Swallow)" by blast
  then have "run S L H st [down, up] = Inr (s1, od @ o1)"
    using ku k1 by simp
  with s1 s1' show ?thesis by blast
qed

lemma keyUp_handlers_frame:
  "bypassMode (fst (keyUp_shift S st k)) = bypassMode st"
  "bypassMode (fst (keyUp_mod3 S st k)) = bypassMode st"
  "bypassMode (fst (keyUp_mod4 S st k)) = bypassMode st"
  "bypassMode (fst (keyUp_system S st k)) = bypassMode st"
  "level3modRightAndNoOtherKeyPressed (fst (keyUp_shift S st k)) =
     level3modRightAndNoOtherKeyPressed st"
  "level3modRightAndNoOtherKeyPressed (fst (keyUp_mod3 S st k)) =
     (if scanCode k = scanCodeMod3R S \<and> mod3RAsReturn S then False
      else level3modRightAndNoOtherKeyPressed st)"
  "level3modRightAndNoOtherKeyPressed (fst (keyUp_mod4 S st k)) =
     level3modRightAndNoOtherKeyPressed st"
  "level3modRightAndNoOtherKeyPressed (fst (keyUp_system S st k)) =
     level3modRightAndNoOtherKeyPressed st"
  by (simp_all add: keyUp_shift_def keyUp_mod3_def keyUp_mod4_def keyUp_system_def
        toggleShiftOrCapsLock_def Let_def)

lemma keyevent_keyUp_frame:
  "bypassMode (fst (keyevent_keyUp S st k)) = bypassMode st"
  "level3modRightAndNoOtherKeyPressed (fst (keyevent_keyUp S st k)) =
     (if \<not> isShift k \<and> scanCode k = scanCodeMod3R S \<and> mod3RAsReturn S then False
      else level3modRightAndNoOtherKeyPressed st)"
  by (simp_all add: keyevent_keyUp_def keyUp_handlers_frame isMod3_def Let_def)

lemma keyDown_level_mod3R:
  "\<not> isShift k \<Longrightarrow> scanCode k = scanCodeMod3R S \<Longrightarrow>
   keyDown_level S L H s k =
     Inr (s\<lparr>mod3Pressed := True, level3modRightPressed := True,
            level3modRightAndNoOtherKeyPressed := True\<rparr>, [], Swallow)"
  by (simp add: keyDown_level_def isMod3_def Let_def)

lemma keyevent_keyDown_mod3R:
  assumes "isMod3RKey S k" and "scanCodeMod3R S \<noteq> 29"
  shows "\<exists>s1 o1 v1. keyevent_keyDown S L H st k = Inr (s1, o1, v1)
           \<and> level3modRightAndNoOtherKeyPressed s1 \<and> bypassMode s1 = bypassMode st"
proof -
  have k: "\<not> isShift k" "scanCode k = scanCodeMod3R S" "vkCode k \<noteq> VK_LMENU"
    "vkCode k \<noteq> VK_LWIN" "scanCode k \<noteq> 29"
    using assms by (simp_all add: isMod3RKey_def)
  show ?thesis
    by (simp add: keyevent_keyDown_def Let_def keyDown_level_mod3R [OF k(1,2)] k(3-5))
qed

lemma mid_step:
  assumes "noKeyDownNorMod3RUp S e" and "\<not> bypassMode st"
    and "level3modRightAndNoOtherKeyPressed st"
  shows "\<exists>s' out v. keyevent S L H st e = Inr (s', out, v)
           \<and> \<not> bypassMode s' \<and> level3modRightAndNoOtherKeyPressed s'"
proof (cases rule: keyevent_cases [of S L H st e])
  case (skip out0)
  with assms show ?thesis by auto
next
  case toggle
  with assms show ?thesis by (simp add: noKeyDownNorMod3RUp_def)
next
  case up
  obtain s' out v where r: "keyevent_keyUp S st (lParam e) = (s', out, v)"
    by (metis prod_cases3)
  then have "s' = fst (keyevent_keyUp S st (lParam e))" by simp
  then have "\<not> bypassMode s'" "level3modRightAndNoOtherKeyPressed s'"
    using assms up(1) by (simp_all add: keyevent_keyUp_frame noKeyDownNorMod3RUp_def)
  with up r show ?thesis by simp
next
  case down
  with assms show ?thesis by (simp add: noKeyDownNorMod3RUp_def)
qed

lemma mid_run:
  assumes "\<forall>e \<in> set mid. noKeyDownNorMod3RUp S e" and "\<not> bypassMode st"
    and "level3modRightAndNoOtherKeyPressed st"
  shows "\<exists>s' out. run S L H st mid = Inr (s', out)
           \<and> \<not> bypassMode s' \<and> level3modRightAndNoOtherKeyPressed s'"
  using assms
proof (induction mid arbitrary: st)
  case Nil
  then show ?case by simp
next
  case (Cons e mid)
  from mid_step [of S e st L H] Cons.prems obtain s1 o1 v1 where
    k: "keyevent S L H st e = Inr (s1, o1, v1)" and s1: "\<not> bypassMode s1"
      "level3modRightAndNoOtherKeyPressed s1"
    by auto
  from Cons.IH [OF _ s1] Cons.prems(1) obtain s' out where
    "run S L H s1 mid = Inr (s', out)" "\<not> bypassMode s'" "level3modRightAndNoOtherKeyPressed s'"
    by auto
  with k show ?case by simp
qed

lemma release_tap:
  assumes "hwKeyUp release" and "isMod3RKey S (lParam release)" and "mod3RAsReturn S"
    and "\<not> bypassMode st" and "level3modRightAndNoOtherKeyPressed st"
  shows "keyevent S L H st release =
     Inr (st\<lparr>level3modRightPressed := False, level3modRightAndNoOtherKeyPressed := False\<rparr>,
          [logKeyEvent S st ''key up'' (lParam release),
           keybd_event (ucast (vkCode (lParam release))) 0 KEYEVENTF_KEYUP 0,
           keybd_event (ucast VK_RETURN) 0 0x01 0],
          Swallow)"
  using assms
  by (simp add: keyevent_keyUp keyevent_keyUp_def keyUp_mod3_def isMod3_def isMod3RKey_def Let_def)

lemma no_flag_step:
  assumes "\<not> (hwKeyDown e \<and> scanCode (lParam e) = scanCodeMod3R S)"
    and "\<not> level3modRightAndNoOtherKeyPressed st"
    and "keyevent S L H st e = Inr (s', out, v)"
  shows "\<not> level3modRightAndNoOtherKeyPressed s'"
proof (cases rule: keyevent_cases [of S L H st e])
  case (skip out0)
  with assms show ?thesis by auto
next
  case toggle
  with assms show ?thesis by auto
next
  case up
  with assms(3) have "s' = fst (keyevent_keyUp S st (lParam e))" by simp
  then show ?thesis
    using assms(2) by (simp add: keyevent_keyUp_frame)
next
  case down
  with assms(3) have "keyevent_keyDown S L H st (lParam e) = Inr (s', out, v)" by simp
  from rs_D [OF keyevent_keyDown_frame this] show ?thesis
    using down(1) assms(1) by auto
qed

lemma no_flag_run:
  assumes "\<forall>e \<in> set post. \<not> (hwKeyDown e \<and> scanCode (lParam e) = scanCodeMod3R S)"
    and "\<not> level3modRightAndNoOtherKeyPressed st"
    and "run S L H st post = Inr (s', out)"
  shows "\<not> level3modRightAndNoOtherKeyPressed s'"
  using assms
proof (induction post arbitrary: st out)
  case Nil
  then show ?case by simp
next
  case (Cons e post)
  from Cons.prems(3) obtain s1 o1 v1 o2 where
    k: "keyevent S L H st e = Inr (s1, o1, v1)" and r: "run S L H s1 post = Inr (s', o2)"
    by (auto split: sum.splits prod.splits)
  have "\<not> level3modRightAndNoOtherKeyPressed s1"
    using no_flag_step [OF _ Cons.prems(2) k] Cons.prems(1) by simp
  from Cons.IH [OF _ this r] Cons.prems(1) show ?case by simp
qed

lemma other_keyDown_clears:
  assumes "hwKeyDown other" and "\<not> bypassMode st"
    and "\<not> (shiftPressed st \<and> scanCode (lParam other) = 69)"
    and "scanCode (lParam other) \<noteq> scanCodeMod3R S"
    and "keyevent S L H st other = Inr (s', out, v)"
  shows "\<not> level3modRightAndNoOtherKeyPressed s'"
proof -
  have "keyevent S L H st other = keyevent_keyDown S L H st (lParam other)"
    using assms(1-3) by (intro keyevent_keyDown)
  with assms(5) have "keyevent_keyDown S L H st (lParam other) = Inr (s', out, v)" by simp
  from rs_D [OF keyevent_keyDown_frame this] assms(4) show ?thesis by auto
qed

lemma keyUp_no_return:
  assumes "scanCode k = scanCodeMod3R S" and "\<not> level3modRightAndNoOtherKeyPressed st"
  shows "keybd_event (ucast VK_RETURN) b f x \<notin> set (fst (snd (keyevent_keyUp S st k)))"
  using assms
  by (simp add: keyevent_keyUp_def keyUp_shift_def keyUp_mod3_def toggleShiftOrCapsLock_def
        isMod3_def logKeyEvent_def logActivation_def Let_def vk_defs)

lemma release_no_return:
  assumes "wParam release = WM_KEYUP \<or> wParam release = WM_SYSKEYUP"
    and "scanCode (lParam release) = scanCodeMod3R S"
    and "\<not> level3modRightAndNoOtherKeyPressed st"
  shows "\<exists>s' out v. keyevent S L H st release = Inr (s', out, v)
           \<and> (\<forall>b f x. keybd_event (ucast VK_RETURN) b f x \<notin> set out)"
proof (cases rule: keyevent_cases [of S L H st release])
  case (skip out0)
  then show ?thesis by (auto simp add: logKeyEvent_def)
next
  case toggle
  with assms(1) show ?thesis by (auto simp add: hwKeyDown_def wm_defs)
next
  case up
  obtain s' out v where r: "keyevent_keyUp S st (lParam release) = (s', out, v)"
    by (metis prod_cases3)
  then have "out = fst (snd (keyevent_keyUp S st (lParam release)))" by simp
  then have "\<forall>b f x. keybd_event (ucast VK_RETURN) b f x \<notin> set out"
    using keyUp_no_return [OF assms(2,3)] by simp
  with up r show ?thesis by simp
next
  case down
  with assms(1) show ?thesis by (auto simp add: hwKeyDown_def wm_defs)
qed

section \<open>Claims about the locks and the tap of the right level-3 modifier\<close>

text \<open>
  C3.  A key-up of a shift key that the classifier handles (not injected, bypass off)
  while the other shift key is recorded as held toggles \<open>shiftLockActive\<close> if
  \<open>shiftLockEnabled\<close> is set, else toggles \<open>capsLockActive\<close> if \<open>capsLockEnabled\<close> is set;
  no other call of the hook procedure, and in particular no key-down, changes either
  flag, so each such release toggles exactly once.  Pressing and releasing one shift key
  while the other stays held toggles once, and doing it twice gives back the lock flags
  the state had.  In no state reached from the initial state are \<open>shiftLockActive\<close> and
  \<open>capsLockActive\<close> both set.
\<close>

theorem shift_lock_toggle:
  "(keyevent g_settings g_layout host g_state call = Inr (s', out, v) \<longrightarrow>
      shiftLockActive s' =
        (if hwKeyUp call \<and> \<not> bypassMode g_state \<and> isShift (lParam call)
            \<and> otherShiftHeld g_state (lParam call) \<and> shiftLockEnabled g_settings
         then \<not> shiftLockActive g_state else shiftLockActive g_state)
    \<and> capsLockActive s' =
        (if hwKeyUp call \<and> \<not> bypassMode g_state \<and> isShift (lParam call)
            \<and> otherShiftHeld g_state (lParam call)
            \<and> \<not> shiftLockEnabled g_settings \<and> capsLockEnabled g_settings
         then \<not> capsLockActive g_state else capsLockActive g_state))
   \<and> (hwKeyUp call \<and> \<not> bypassMode g_state \<and> isShift (lParam call) \<longrightarrow>
        (\<exists>s1 o1. keyevent g_settings g_layout host g_state call = Inr (s1, o1, Swallow)))
   \<and> (hwKeyDown down \<and> hwKeyUp up \<and> isShift (lParam down)
        \<and> vkCode (lParam up) = vkCode (lParam down) \<and> scanCode (lParam down) \<noteq> 69
        \<and> \<not> bypassMode g_state \<and> otherShiftHeld g_state (lParam down) \<longrightarrow>
        (\<exists>s1 o1 s2 o2.
           run g_settings g_layout host g_state [down, up] = Inr (s1, o1)
         \<and> shiftLockActive s1 =
             (if shiftLockEnabled g_settings then \<not> shiftLockActive g_state
              else shiftLockActive g_state)
         \<and> capsLockActive s1 =
             (if \<not> shiftLockEnabled g_settings \<and> capsLockEnabled g_settings
              then \<not> capsLockActive g_state else capsLockActive g_state)
         \<and> run g_settings g_layout host g_state [down, up, down, up] = Inr (s2, o2)
         \<and> shiftLockActive s2 = shiftLockActive g_state
         \<and> capsLockActive s2 = capsLockActive g_state))
   \<and> (run g_settings g_layout host initialState calls = Inr (sN, outN) \<longrightarrow>
        \<not> (shiftLockActive sN \<and> capsLockActive sN))"
proof -
  have p2: "\<exists>s1 o1. keyevent g_settings g_layout host g_state call = Inr (s1, o1, Swallow)"
    if "hwKeyUp call" "\<not> bypassMode g_state" "isShift (lParam call)"
  proof -
    have "snd (snd (keyevent_keyUp g_settings g_state (lParam call))) = Swallow"
      using that(3) by (simp add: keyevent_keyUp_def keyUp_shift_def Let_def)
    then have "\<exists>s1 o1. keyevent_keyUp g_settings g_state (lParam call) = (s1, o1, Swallow)"
      by (metis prod.collapse)
    then show ?thesis
      using keyevent_keyUp [OF that(1,2), of g_settings g_layout host] by simp
  qed
  have p3: "\<exists>s1 o1 s2 o2.
           run g_settings g_layout host g_state [down, up] = Inr (s1, o1)
         \<and> shiftLockActive s1 =
             (if shiftLockEnabled g_settings then \<not> shiftLockActive g_state
              else shiftLockActive g_state)
         \<and> capsLockActive s1 =
             (if \<not> shiftLockEnabled g_settings \<and> capsLockEnabled g_settings
              then \<not> capsLockActive g_state else capsLockActive g_state)
         \<and> run g_settings g_layout host g_state [down, up, down, up] = Inr (s2, o2)
         \<and> shiftLockActive s2 = shiftLockActive g_state
         \<and> capsLockActive s2 = capsLockActive g_state"
    if h: "hwKeyDown down" "hwKeyUp up" "isShift (lParam down)"
      "vkCode (lParam up) = vkCode (lParam down)" "scanCode (lParam down) \<noteq> 69"
      "\<not> bypassMode g_state" "otherShiftHeld g_state (lParam down)"
  proof -
    from shift_gesture_once [OF h, of g_settings g_layout host] obtain s1 o1 where
      r1: "run g_settings g_layout host g_state [down, up] = Inr (s1, o1)"
      and s1: "\<not> bypassMode s1" "otherShiftHeld s1 (lParam down)"
      and l1: "shiftLockActive s1 =
             (if shiftLockEnabled g_settings then \<not> shiftLockActive g_state
              else shiftLockActive g_state)"
          "capsLockActive s1 =
             (if \<not> shiftLockEnabled g_settings \<and> capsLockEnabled g_settings
              then \<not> capsLockActive g_state else capsLockActive g_state)"
      by blast
    from shift_gesture_once [OF h(1-5) s1, of g_settings g_layout host] obtain s2 o2 where
      r2: "run g_settings g_layout host s1 [down, up] = Inr (s2, o2)"
      and l2: "shiftLockActive s2 =
             (if shiftLockEnabled g_settings then \<not> shiftLockActive s1 else shiftLockActive s1)"
          "capsLockActive s2 =
             (if \<not> shiftLockEnabled g_settings \<and> capsLockEnabled g_settings
              then \<not> capsLockActive s1 else capsLockActive s1)"
      by blast
    have "run g_settings g_layout host g_state ([down, up] @ [down, up]) = Inr (s2, o1 @ o2)"
      unfolding run_append using r1 r2 by simp
    then have r12: "run g_settings g_layout host g_state [down, up, down, up] = Inr (s2, o1 @ o2)"
      by simp
    have "shiftLockActive s2 = shiftLockActive g_state" "capsLockActive s2 = capsLockActive g_state"
      using l1 l2 by auto
    with r1 l1 r12 show ?thesis by blast
  qed
  have p4: "\<not> (shiftLockActive sN \<and> capsLockActive sN)"
    if "run g_settings g_layout host initialState calls = Inr (sN, outN)"
    using locks_invariant_run [OF that] by (auto simp add: initialState_def)
  show ?thesis
    using keyevent_locks [of g_settings g_layout host g_state call s' out v] p2 p3 p4
    by blast
qed

theorem shift_lock_toggle_witness:
  "hwKeyDown (keyDownCall VK_LSHIFT 42) \<and> hwKeyUp (keyUpCall VK_LSHIFT 42)
   \<and> isShift (lParam (keyDownCall VK_LSHIFT 42))
   \<and> \<not> bypassMode (initialState\<lparr>shiftPressed := True, shiftRightPressed := True\<rparr>)
   \<and> otherShiftHeld (initialState\<lparr>shiftPressed := True, shiftRightPressed := True\<rparr>)
        (lParam (keyDownCall VK_LSHIFT 42))
   \<and> shiftLockEnabled (sanitize (defaultSettings\<lparr>shiftLockEnabled := True\<rparr>))
   \<and> (\<exists>s1 o1 s2 o2.
        run (sanitize (defaultSettings\<lparr>shiftLockEnabled := True\<rparr>))
            (buildLayout (sanitize (defaultSettings\<lparr>shiftLockEnabled := True\<rparr>))) noLayoutHost
            (initialState\<lparr>shiftPressed := True, shiftRightPressed := True\<rparr>)
            [keyDownCall VK_LSHIFT 42, keyUpCall VK_LSHIFT 42] = Inr (s1, o1)
      \<and> shiftLockActive s1 \<and> \<not> capsLockActive s1
      \<and> run (sanitize (defaultSettings\<lparr>shiftLockEnabled := True\<rparr>))
            (buildLayout (sanitize (defaultSettings\<lparr>shiftLockEnabled := True\<rparr>))) noLayoutHost
            (initialState\<lparr>shiftPressed := True, shiftRightPressed := True\<rparr>)
            [keyDownCall VK_LSHIFT 42, keyUpCall VK_LSHIFT 42,
             keyDownCall VK_LSHIFT 42, keyUpCall VK_LSHIFT 42] = Inr (s2, o2)
      \<and> \<not> shiftLockActive s2 \<and> \<not> capsLockActive s2)"
proof -
  have h: "hwKeyDown (keyDownCall VK_LSHIFT 42)" "hwKeyUp (keyUpCall VK_LSHIFT 42)"
    "isShift (lParam (keyDownCall VK_LSHIFT 42))"
    "vkCode (lParam (keyUpCall VK_LSHIFT 42)) = vkCode (lParam (keyDownCall VK_LSHIFT 42))"
    "scanCode (lParam (keyDownCall VK_LSHIFT 42)) \<noteq> 69"
    "\<not> bypassMode (initialState\<lparr>shiftPressed := True, shiftRightPressed := True\<rparr>)"
    "otherShiftHeld (initialState\<lparr>shiftPressed := True, shiftRightPressed := True\<rparr>)
        (lParam (keyDownCall VK_LSHIFT 42))"
    by (simp_all add: hwKeyDown_def hwKeyUp_def keyDownCall_def keyUpCall_def isShift_def
          otherShiftHeld_def initialState_def vk_defs wm_defs)
  have e: "shiftLockEnabled (sanitize (defaultSettings\<lparr>shiftLockEnabled := True\<rparr>))"
    by (simp add: sanitize_def defaultSettings_def Let_def)
  have l: "\<not> shiftLockActive (initialState\<lparr>shiftPressed := True, shiftRightPressed := True\<rparr>)"
    "\<not> capsLockActive (initialState\<lparr>shiftPressed := True, shiftRightPressed := True\<rparr>)"
    by (simp_all add: initialState_def)
  note t = shift_lock_toggle [where g_settings = "sanitize (defaultSettings\<lparr>shiftLockEnabled := True\<rparr>)"
      and g_layout = "buildLayout (sanitize (defaultSettings\<lparr>shiftLockEnabled := True\<rparr>))"
      and host = noLayoutHost
      and g_state = "initialState\<lparr>shiftPressed := True, shiftRightPressed := True\<rparr>"
      and down = "keyDownCall VK_LSHIFT 42" and up = "keyUpCall VK_LSHIFT 42",
      THEN conjunct2, THEN conjunct2, THEN conjunct1, rule_format]
  have "\<exists>s1 o1 s2 o2.
        run (sanitize (defaultSettings\<lparr>shiftLockEnabled := True\<rparr>))
            (buildLayout (sanitize (defaultSettings\<lparr>shiftLockEnabled := True\<rparr>))) noLayoutHost
            (initialState\<lparr>shiftPressed := True, shiftRightPressed := True\<rparr>)
            [keyDownCall VK_LSHIFT 42, keyUpCall VK_LSHIFT 42] = Inr (s1, o1)
      \<and> shiftLockActive s1 \<and> \<not> capsLockActive s1
      \<and> run (sanitize (defaultSettings\<lparr>shiftLockEnabled := True\<rparr>))
            (buildLayout (sanitize (defaultSettings\<lparr>shiftLockEnabled := True\<rparr>))) noLayoutHost
            (initialState\<lparr>shiftPressed := True, shiftRightPressed := True\<rparr>)
            [keyDownCall VK_LSHIFT 42, keyUpCall VK_LSHIFT 42,
             keyDownCall VK_LSHIFT 42, keyUpCall VK_LSHIFT 42] = Inr (s2, o2)
      \<and> \<not> shiftLockActive s2 \<and> \<not> capsLockActive s2"
    using t h e l by (simp del: run.simps)
  with h e show ?thesis by blast
qed

text \<open>
  C2, as the code has it.  Let \<open>scanCodeMod3R\<close> be one of the three scan codes that
  \<open>sanitize\<close> can leave there.  If \<open>mod3RAsReturn\<close> is set and the right level-3 modifier
  is pressed while bypass is off, and then released with nothing in between but events
  that are neither a key-down reaching the classifier nor a key-up of that modifier,
  then the release sends the key-up of the modifier followed by a Return key event, is
  swallowed, and changes nothing in the state but \<open>level3modRightPressed\<close> and the tap
  flag: no lock is toggled and \<open>mod3Pressed\<close> is not recomputed.  If between press and
  release a key-down of another key reaches the classifier while bypass is off, and is
  not the pause key with shift held (the bypass gesture), and the right level-3 modifier
  is not pressed again after it, then the release sends no Return key event.
\<close>

theorem mod3R_tap_sends_return:
  assumes "scanCodeMod3R g_settings \<in> {SCANCODE_HASH_KEY, SCANCODE_QUOTE_KEY, SCANCODE_RETURN_KEY}"
  shows "(mod3RAsReturn g_settings \<and> \<not> bypassMode g_state
          \<and> hwKeyDown press \<and> isMod3RKey g_settings (lParam press)
          \<and> (\<forall>e \<in> set mid. noKeyDownNorMod3RUp g_settings e)
          \<and> hwKeyUp release \<and> isMod3RKey g_settings (lParam release) \<longrightarrow>
          (\<exists>st2 out.
             run g_settings g_layout host g_state (press # mid) = Inr (st2, out)
           \<and> keyevent g_settings g_layout host st2 release =
               Inr (st2\<lparr>level3modRightPressed := False,
                        level3modRightAndNoOtherKeyPressed := False\<rparr>,
                    [logKeyEvent g_settings st2 ''key up'' (lParam release),
                     keybd_event (ucast (vkCode (lParam release))) 0 KEYEVENTF_KEYUP 0,
                     keybd_event (ucast VK_RETURN) 0 0x01 0],
                    Swallow)))
       \<and> (\<not> bypassMode st_a \<and> hwKeyDown other
          \<and> scanCode (lParam other) \<noteq> scanCodeMod3R g_settings
          \<and> \<not> (shiftPressed st_a \<and> scanCode (lParam other) = 69)
          \<and> (\<forall>e \<in> set post. \<not> (hwKeyDown e \<and> scanCode (lParam e) = scanCodeMod3R g_settings))
          \<and> run g_settings g_layout host st_a (other # post) = Inr (st_b, out_b)
          \<and> (wParam release_b = WM_KEYUP \<or> wParam release_b = WM_SYSKEYUP)
          \<and> scanCode (lParam release_b) = scanCodeMod3R g_settings \<longrightarrow>
          (\<exists>st_c out_c v. keyevent g_settings g_layout host st_b release_b = Inr (st_c, out_c, v)
              \<and> (\<forall>b f x. keybd_event (ucast VK_RETURN) b f x \<notin> set out_c)))"
proof -
  have sc: "scanCodeMod3R g_settings \<noteq> 29" "scanCodeMod3R g_settings \<noteq> 69"
    using assms by (auto simp add: scancode_defs)
  have p1: "\<exists>st2 out.
             run g_settings g_layout host g_state (press # mid) = Inr (st2, out)
           \<and> keyevent g_settings g_layout host st2 release =
               Inr (st2\<lparr>level3modRightPressed := False,
                        level3modRightAndNoOtherKeyPressed := False\<rparr>,
                    [logKeyEvent g_settings st2 ''key up'' (lParam release),
                     keybd_event (ucast (vkCode (lParam release))) 0 KEYEVENTF_KEYUP 0,
                     keybd_event (ucast VK_RETURN) 0 0x01 0],
                    Swallow)"
    if h: "mod3RAsReturn g_settings" "\<not> bypassMode g_state" "hwKeyDown press"
      "isMod3RKey g_settings (lParam press)" "\<forall>e \<in> set mid. noKeyDownNorMod3RUp g_settings e"
      "hwKeyUp release" "isMod3RKey g_settings (lParam release)"
  proof -
    have "scanCode (lParam press) \<noteq> 69"
      using h(4) sc(2) by (simp add: isMod3RKey_def)
    then have "keyevent g_settings g_layout host g_state press =
        keyevent_keyDown g_settings g_layout host g_state (lParam press)"
      using h(2,3) by (intro keyevent_keyDown) auto
    with keyevent_keyDown_mod3R [OF h(4) sc(1), of g_layout host g_state] h(2)
    obtain s1 o1 v1 where
      k: "keyevent g_settings g_layout host g_state press = Inr (s1, o1, v1)"
      and s1: "\<not> bypassMode s1" "level3modRightAndNoOtherKeyPressed s1"
      by auto
    from mid_run [OF h(5) s1, of g_layout host] obtain st2 o2 where
      r: "run g_settings g_layout host s1 mid = Inr (st2, o2)"
      and s2: "\<not> bypassMode st2" "level3modRightAndNoOtherKeyPressed st2"
      by blast
    have "run g_settings g_layout host g_state (press # mid) = Inr (st2, o1 @ o2)"
      using k r by simp
    with release_tap [OF h(6,7,1) s2, of g_layout host] show ?thesis by blast
  qed
  have p2: "\<exists>st_c out_c v. keyevent g_settings g_layout host st_b release_b = Inr (st_c, out_c, v)
              \<and> (\<forall>b f x. keybd_event (ucast VK_RETURN) b f x \<notin> set out_c)"
    if h: "\<not> bypassMode st_a" "hwKeyDown other"
      "scanCode (lParam other) \<noteq> scanCodeMod3R g_settings"
      "\<not> (shiftPressed st_a \<and> scanCode (lParam other) = 69)"
      "\<forall>e \<in> set post. \<not> (hwKeyDown e \<and> scanCode (lParam e) = scanCodeMod3R g_settings)"
      "run g_settings g_layout host st_a (other # post) = Inr (st_b, out_b)"
      "wParam release_b = WM_KEYUP \<or> wParam release_b = WM_SYSKEYUP"
      "scanCode (lParam release_b) = scanCodeMod3R g_settings"
  proof -
    from h(6) obtain s1 o1 v1 o2 where
      k: "keyevent g_settings g_layout host st_a other = Inr (s1, o1, v1)"
      and r: "run g_settings g_layout host s1 post = Inr (st_b, o2)"
      by (auto split: sum.splits prod.splits)
    have "\<not> level3modRightAndNoOtherKeyPressed s1"
      by (rule other_keyDown_clears [OF h(2,1,4,3) k])
    then have "\<not> level3modRightAndNoOtherKeyPressed st_b"
      by (rule no_flag_run [OF h(5) _ r])
    then show ?thesis
      by (rule release_no_return [OF h(7,8)])
  qed
  from p1 p2 show ?thesis by blast
qed

theorem mod3R_tap_sends_return_witness:
  "scanCodeMod3R tapSettings \<in> {SCANCODE_HASH_KEY, SCANCODE_QUOTE_KEY, SCANCODE_RETURN_KEY}
   \<and> mod3RAsReturn tapSettings \<and> \<not> bypassMode initialState
   \<and> hwKeyDown (keyDownCall 0xBF 43) \<and> isMod3RKey tapSettings (lParam (keyDownCall 0xBF 43))
   \<and> noKeyDownNorMod3RUp tapSettings (keyUpCall 0x41 30)
   \<and> hwKeyUp (keyUpCall 0xBF 43) \<and> isMod3RKey tapSettings (lParam (keyUpCall 0xBF 43))
   \<and> (\<exists>st2 out.
         run tapSettings (buildLayout tapSettings) noLayoutHost initialState
           [keyDownCall 0xBF 43, keyUpCall 0x41 30] = Inr (st2, out)
       \<and> keyevent tapSettings (buildLayout tapSettings) noLayoutHost st2 (keyUpCall 0xBF 43) =
           Inr (st2\<lparr>level3modRightPressed := False,
                    level3modRightAndNoOtherKeyPressed := False\<rparr>,
                [logKeyEvent tapSettings st2 ''key up'' (lParam (keyUpCall 0xBF 43)),
                 keybd_event 0xBF 0 KEYEVENTF_KEYUP 0,
                 keybd_event (ucast VK_RETURN) 0 0x01 0],
                Swallow))
   \<and> hwKeyDown (keyDownCall 0x41 30)
   \<and> scanCode (lParam (keyDownCall 0x41 30)) \<noteq> scanCodeMod3R tapSettings
   \<and> (\<exists>st3 out3.
         run tapSettings (buildLayout tapSettings) noLayoutHost
           (initialState\<lparr>mod3Pressed := True, level3modRightPressed := True,
                          level3modRightAndNoOtherKeyPressed := True\<rparr>)
           [keyDownCall 0x41 30] = Inr (st3, out3)
       \<and> (\<exists>st4 out4 v.
             keyevent tapSettings (buildLayout tapSettings) noLayoutHost st3 (keyUpCall 0xBF 43) =
               Inr (st4, out4, v)
           \<and> (\<forall>b f x. keybd_event (ucast VK_RETURN) b f x \<notin> set out4)))"
proof -
  have a: "scanCodeMod3R tapSettings \<in> {SCANCODE_HASH_KEY, SCANCODE_QUOTE_KEY, SCANCODE_RETURN_KEY}"
    by (simp add: tapSettings_def sanitize_def defaultSettings_def Let_def)
  have h1: "mod3RAsReturn tapSettings" "\<not> bypassMode initialState"
    "hwKeyDown (keyDownCall 0xBF 43)" "isMod3RKey tapSettings (lParam (keyDownCall 0xBF 43))"
    "noKeyDownNorMod3RUp tapSettings (keyUpCall 0x41 30)"
    "hwKeyUp (keyUpCall 0xBF 43)" "isMod3RKey tapSettings (lParam (keyUpCall 0xBF 43))"
    by (simp_all add: tapSettings_def sanitize_def defaultSettings_def initialState_def
          hwKeyDown_def hwKeyUp_def keyDownCall_def keyUpCall_def isMod3RKey_def isShift_def
          noKeyDownNorMod3RUp_def vk_defs wm_defs scancode_defs Let_def)
  have p1: "\<exists>st2 out.
         run tapSettings (buildLayout tapSettings) noLayoutHost initialState
           [keyDownCall 0xBF 43, keyUpCall 0x41 30] = Inr (st2, out)
       \<and> keyevent tapSettings (buildLayout tapSettings) noLayoutHost st2 (keyUpCall 0xBF 43) =
           Inr (st2\<lparr>level3modRightPressed := False,
                    level3modRightAndNoOtherKeyPressed := False\<rparr>,
                [logKeyEvent tapSettings st2 ''key up'' (lParam (keyUpCall 0xBF 43)),
                 keybd_event (ucast (vkCode (lParam (keyUpCall 0xBF 43)))) 0 KEYEVENTF_KEYUP 0,
                 keybd_event (ucast VK_RETURN) 0 0x01 0],
                Swallow)"
    by (rule mod3R_tap_sends_return [OF a, THEN conjunct1, THEN mp]) (simp add: h1)
  have vk: "ucast (vkCode (lParam (keyUpCall 0xBF 43))) = (0xBF :: BYTE)"
    by (simp add: keyUpCall_def)
  have h2: "hwKeyDown (keyDownCall 0x41 30)"
    "scanCode (lParam (keyDownCall 0x41 30)) \<noteq> scanCodeMod3R tapSettings"
    "\<not> bypassMode (initialState\<lparr>mod3Pressed := True, level3modRightPressed := True,
                          level3modRightAndNoOtherKeyPressed := True\<rparr>)"
    "\<not> (shiftPressed (initialState\<lparr>mod3Pressed := True, level3modRightPressed := True,
                          level3modRightAndNoOtherKeyPressed := True\<rparr>)
        \<and> scanCode (lParam (keyDownCall 0x41 30)) = 69)"
    "wParam (keyUpCall 0xBF 43) = WM_KEYUP \<or> wParam (keyUpCall 0xBF 43) = WM_SYSKEYUP"
    "scanCode (lParam (keyUpCall 0xBF 43)) = scanCodeMod3R tapSettings"
    by (simp_all add: tapSettings_def sanitize_def defaultSettings_def initialState_def
          hwKeyDown_def keyDownCall_def keyUpCall_def wm_defs scancode_defs Let_def)
  have "unat (scanCode (lParam (keyDownCall 0x41 30))) < MAPPING_LEN"
    by (simp add: keyDownCall_def MAPPING_LEN_def)
  from keyevent_in_bounds [OF this, of tapSettings "buildLayout tapSettings" noLayoutHost
      "initialState\<lparr>mod3Pressed := True, level3modRightPressed := True,
                          level3modRightAndNoOtherKeyPressed := True\<rparr>"]
  obtain st3 out3 v3 where
    k: "keyevent tapSettings (buildLayout tapSettings) noLayoutHost
          (initialState\<lparr>mod3Pressed := True, level3modRightPressed := True,
                          level3modRightAndNoOtherKeyPressed := True\<rparr>)
          (keyDownCall 0x41 30) = Inr (st3, out3, v3)"
    by (metis prod_cases3)
  then have r: "run tapSettings (buildLayout tapSettings) noLayoutHost
          (initialState\<lparr>mod3Pressed := True, level3modRightPressed := True,
                          level3modRightAndNoOtherKeyPressed := True\<rparr>)
          [keyDownCall 0x41 30] = Inr (st3, out3)"
    by simp
  have p2: "\<exists>st4 out4 v.
             keyevent tapSettings (buildLayout tapSettings) noLayoutHost st3 (keyUpCall 0xBF 43) =
               Inr (st4, out4, v)
           \<and> (\<forall>b f x. keybd_event (ucast VK_RETURN) b f x \<notin> set out4)"
    by (rule mod3R_tap_sends_return [where post = "[]" and out_b = out3 and st_b = st3
          and other = "keyDownCall 0x41 30" and release_b = "keyUpCall 0xBF 43"
          and st_a = "initialState\<lparr>mod3Pressed := True, level3modRightPressed := True,
                          level3modRightAndNoOtherKeyPressed := True\<rparr>",
          OF a, THEN conjunct2, THEN mp])
       (use h2 r in \<open>simp del: run.simps\<close>)
  from a h1 p1 [unfolded vk] h2(1,2) r p2 show ?thesis by blast
qed

text \<open>
  C2 as stated fails: with \<open>mod3RAsReturn\<close> set and left shift held, the right level-3
  modifier (scan code 43) is pressed, the pause key (scan code 69) is pressed twice,
  and the modifier is released.  Two key-downs of another key lie between press and
  release, each is the bypass gesture and returns at line 593 before the tap flags are
  cleared, bypass is off again at the release, and the release sends Return.
\<close>

theorem mod3R_tap_after_bypass_gesture_counterexample:
  "mod3RAsReturn tapSettings
   \<and> scanCodeMod3R tapSettings = 43
   \<and> hwKeyDown (keyDownCall 0x13 69)
   \<and> emitted (run tapSettings (buildLayout tapSettings) noLayoutHost
        initialState
        [keyDownCall VK_LSHIFT 42, keyDownCall 0xBF 43, keyDownCall 0x13 69,
         keyDownCall 0x13 69, keyUpCall 0xBF 43])
     = [LogKeyEvent (CHR 0x0A # ''key down'')
          \<lparr>vkCode = VK_LSHIFT, scanCode = 42, flags = 0, time = 0, dwExtraInfo = 0\<rparr>
          ''(Shift left)'' [] [],
        keybd_event (ucast VK_LSHIFT) 0 0 0,
        LogKeyEvent (CHR 0x0A # ''key down'')
          \<lparr>vkCode = 0xBF, scanCode = 43, flags = 0, time = 0, dwExtraInfo = 0\<rparr>
          ''(M3 right)'' [] [],
        trayicon_change_icon True, LogBypassMode True,
        trayicon_change_icon False, LogBypassMode False,
        LogKeyEvent ''key up''
          \<lparr>vkCode = 0xBF, scanCode = 43, flags = 0x80, time = 0, dwExtraInfo = 0\<rparr>
          ''(M3 right)'' [] [],
        keybd_event 0xBF 0 KEYEVENTF_KEYUP 0,
        keybd_event (ucast VK_RETURN) 0 0x01 0]"
  by (simp add: emitted_def keyevent_def keyevent_keyDown_def keyDown_level_def
        keyevent_keyUp_def keyUp_mod3_def toggleBypassMode_def isShift_def isMod3_def
        isMod4_def logKeyEvent_def keyNameFor_def tapSettings_def sanitize_def defaultSettings_def
        initialState_def keyDownCall_def keyUpCall_def hwKeyDown_def
        vk_defs wm_defs scancode_defs Let_def)


end
